theory Spec2Isabelle
  imports Main
begin

section \<open>Dates: the JavaScript Date object and the date-fns helpers\<close>

text \<open>
  A \<open>Date\<close> is its time value: the number of milliseconds since the epoch. All calendar
  readings (\<open>getDate\<close>, \<open>getDay\<close>, \<open>setDate\<close>, \<open>setHours\<close>) are local-time readings in
  JavaScript; the model reads them in a zone with a constant offset, taken as zero, so that a
  local day is exactly \<open>msPerDay\<close> milliseconds long (no daylight-saving jumps). Invalid
  dates (NaN) and fractional numbers are outside the model.

  The calendar follows the ECMAScript definitions \<open>Day\<close>, \<open>DaysInYear\<close>,
  \<open>DayFromYear\<close>, \<open>MonthFromTime\<close>, \<open>DateFromTime\<close>, \<open>WeekDay\<close> and \<open>MakeDay\<close>.
\<close>

type_synonym Date = int

definition msPerDay :: int where
  "msPerDay = 86400000"

definition Day :: "Date \<Rightarrow> int" where
  "Day t = t div msPerDay"

definition TimeWithinDay :: "Date \<Rightarrow> int" where
  "TimeWithinDay t = t mod msPerDay"

definition InLeapYear :: "int \<Rightarrow> bool" where
  "InLeapYear y = (y mod 4 = 0 \<and> (y mod 100 \<noteq> 0 \<or> y mod 400 = 0))"

definition DaysInYear :: "int \<Rightarrow> int" where
  "DaysInYear y = (if InLeapYear y then 366 else 365)"

definition DayFromYear :: "int \<Rightarrow> int" where
  "DayFromYear y = 365 * (y - 1970) + (y - 1969) div 4 - (y - 1901) div 100 + (y - 1601) div 400"

text \<open>
  \<open>YearFromTime\<close> is the year whose first day is the latest one not after the given day.
  \<open>yearWalk y d\<close> normalises a year and a day offset from its 1 January, one year at a
  time, until the offset lies inside the year; \<open>YearAndDay\<close> starts it from an estimate.
\<close>

function yearWalk :: "int \<Rightarrow> int \<Rightarrow> int \<times> int" where
  "yearWalk y d =
     (if d < 0 then yearWalk (y - 1) (d + DaysInYear (y - 1))
      else if DaysInYear y \<le> d then yearWalk (y + 1) (d - DaysInYear y)
      else (y, d))"
  by pat_completeness auto
termination
  by (relation "measure (\<lambda>(y, d). if d < 0 then nat (- d) + 367 else nat d)")
     (auto simp: DaysInYear_def split: if_splits)

declare yearWalk.simps [simp del]

definition YearAndDay :: "int \<Rightarrow> int \<times> int" where
  "YearAndDay n = (let y0 = 1970 + n div 366 in yearWalk y0 (n - DayFromYear y0))"

text \<open>Day offset, inside year \<open>y\<close>, of the first day of month \<open>m\<close> (0 = January).\<close>

definition monthStart :: "int \<Rightarrow> int \<Rightarrow> int" where
  "monthStart y m =
     (let L = (if InLeapYear y then 1 else 0) in
      if m = 0 then 0 else if m = 1 then 31 else if m = 2 then 59 + L
      else if m = 3 then 90 + L else if m = 4 then 120 + L else if m = 5 then 151 + L
      else if m = 6 then 181 + L else if m = 7 then 212 + L else if m = 8 then 243 + L
      else if m = 9 then 273 + L else if m = 10 then 304 + L else 334 + L)"

definition MonthFromDay :: "int \<Rightarrow> int \<Rightarrow> int" where
  "MonthFromDay y d =
     (if d < monthStart y 1 then 0 else if d < monthStart y 2 then 1
      else if d < monthStart y 3 then 2 else if d < monthStart y 4 then 3
      else if d < monthStart y 5 then 4 else if d < monthStart y 6 then 5
      else if d < monthStart y 7 then 6 else if d < monthStart y 8 then 7
      else if d < monthStart y 9 then 8 else if d < monthStart y 10 then 9
      else if d < monthStart y 11 then 10 else 11)"

definition DaysInMonth :: "int \<Rightarrow> int \<Rightarrow> int" where
  "DaysInMonth y m =
     (if m = 1 then (if InLeapYear y then 29 else 28)
      else if m = 3 \<or> m = 5 \<or> m = 8 \<or> m = 10 then 30 else 31)"

definition getFullYear :: "Date \<Rightarrow> int" where
  "getFullYear t = fst (YearAndDay (Day t))"

definition getMonth :: "Date \<Rightarrow> int" where
  "getMonth t = (let (y, d) = YearAndDay (Day t) in MonthFromDay y d)"

definition getDate :: "Date \<Rightarrow> int" where
  "getDate t = (let (y, d) = YearAndDay (Day t) in d - monthStart y (MonthFromDay y d) + 1)"

definition getDay :: "Date \<Rightarrow> int" where
  "getDay t = (Day t + 4) mod 7"

definition MakeDay :: "int \<Rightarrow> int \<Rightarrow> int \<Rightarrow> int" where
  "MakeDay y m dt =
     (let ym = y + m div 12; mn = m mod 12 in DayFromYear ym + monthStart ym mn + dt - 1)"

text \<open>\<open>Date.prototype.setDate\<close> (date-fns \<open>setDate\<close>): a day number past the end of the
  month rolls over into the following month.\<close>

definition setDayOfMonthFn :: "Date \<Rightarrow> int \<Rightarrow> Date" where
  "setDayOfMonthFn t n = MakeDay (getFullYear t) (getMonth t) n * msPerDay + TimeWithinDay t"

text \<open>date-fns \<open>addMonths\<close>: the same day number in the target month, or the last day of
  the target month when it is shorter.\<close>

definition addMonths :: "Date \<Rightarrow> int \<Rightarrow> Date" where
  "addMonths t amount =
     (if amount = 0 then t
      else let dayOfMonth = getDate t;
               endOfDesiredMonth =
                 MakeDay (getFullYear t) (getMonth t + amount + 1) 0 * msPerDay + TimeWithinDay t;
               daysInMonth = getDate endOfDesiredMonth
           in if daysInMonth \<le> dayOfMonth then endOfDesiredMonth
              else MakeDay (getFullYear endOfDesiredMonth) (getMonth endOfDesiredMonth) dayOfMonth
                     * msPerDay + TimeWithinDay t)"

text \<open>date-fns \<open>addDays\<close>: the same time of day \<open>n\<close> days later. The library
  writes it as \<open>setDate(getDate() + n)\<close>, which is the same instant (lemma
  \<open>addDays_as_setDate\<close> below).\<close>

definition addDays :: "Date \<Rightarrow> int \<Rightarrow> Date" where
  "addDays t n = t + n * msPerDay"

definition subDays :: "Date \<Rightarrow> int \<Rightarrow> Date" where
  "subDays t n = addDays t (- n)"

definition subWeeks :: "Date \<Rightarrow> int \<Rightarrow> Date" where
  "subWeeks t n = addDays t (- n * 7)"

definition dateFnsStartOfDay :: "Date \<Rightarrow> Date" where
  "dateFnsStartOfDay t = t - TimeWithinDay t"

definition getStartOfDayUtil :: "Date \<Rightarrow> Date" where
  "getStartOfDayUtil t = t - TimeWithinDay t"

definition dateFnsEndOfDay :: "Date \<Rightarrow> Date" where
  "dateFnsEndOfDay t = t - TimeWithinDay t + (msPerDay - 1)"

definition isBefore :: "Date \<Rightarrow> Date \<Rightarrow> bool" where
  "isBefore a b = (a < b)"

definition isAfter :: "Date \<Rightarrow> Date \<Rightarrow> bool" where
  "isAfter a b = (b < a)"

definition isSameDay :: "Date \<Rightarrow> Date \<Rightarrow> bool" where
  "isSameDay a b = (dateFnsStartOfDay a = dateFnsStartOfDay b)"

text \<open>date-fns \<open>isWithinInterval\<close> on an interval whose start is not after its end. On a
  reversed interval the library either raises (version 2) or swaps the ends (version 3 on);
  the model swaps.\<close>

definition isWithinInterval :: "Date \<Rightarrow> Date \<Rightarrow> Date \<Rightarrow> bool" where
  "isWithinInterval t start end' = (min start end' \<le> t \<and> t \<le> max start end')"

subsection \<open>Date keys\<close>

fun digits :: "nat \<Rightarrow> string" where
  "digits n = (if n < 10 then [''0123456789'' ! n]
               else digits (n div 10) @ [''0123456789'' ! (n mod 10)])"

declare digits.simps [simp del]

definition addLeadingZeros :: "int \<Rightarrow> nat \<Rightarrow> string" where
  "addLeadingZeros n targetLength =
     (let out = digits (nat \<bar>n\<bar>)
      in (if n < 0 then ''-'' else '''') @ replicate (targetLength - length out) CHR ''0'' @ out)"

text \<open>\<open>formatISO(date, { representation: 'date' })\<close>: the key \<open>YYYY-MM-DD\<close>.\<close>

definition formatISODate :: "Date \<Rightarrow> string" where
  "formatISODate t =
     addLeadingZeros (getFullYear t) 4 @ ''-'' @ addLeadingZeros (getMonth t + 1) 2
       @ ''-'' @ addLeadingZeros (getDate t) 2"

section \<open>Data model\<close>

text \<open>
  Modelled from the spec: the type declarations \<open>Activity\<close>, \<open>RecurrenceRule\<close> and
  \<open>Todo\<close> (the module \<open>@/lib/types\<close> is not among the sources). The fields are
  those of section 3 of the specification, which are also the fields the provider and the
  activity form read and write; \<open>FutureInstance\<close> is declared in the provider. Optional
  properties are options. The two properties of a rule that the store compares with
  \<open>!==\<close> and \<open>JSON.stringify\<close>, \<open>dayOfMonth\<close> and \<open>daysOfWeek\<close>, keep
  \<open>undefined\<close> and \<open>null\<close> apart (\<open>Undefined\<close>, \<open>Null\<close>); the generator
  reads them through \<open>present\<close>, for which both are missing. Everywhere else the source
  only tests a property for truthiness or through \<open>?.\<close>, and \<open>None\<close> stands for both.
  A missing \<open>completedOccurrences\<close> object reads like the empty one everywhere (the
  source looks keys up through \<open>?.\<close> and copies it with a spread), so the ledger is a
  map. Timestamps and day numbers are integers. The fields \<open>id\<close>, \<open>notes\<close> and \<open>type\<close> are
  named \<open>activityId\<close>, \<open>activityNotes\<close> and \<open>rtype\<close>.
\<close>

datatype RecurrenceType = RNone | Daily | Weekly | Monthly

datatype 'a jsopt = Undefined | Null | Defined 'a

fun present :: "'a jsopt \<Rightarrow> 'a option" where
  "present Undefined = None"
| "present Null = None"
| "present (Defined x) = Some x"

record RecurrenceRule =
  rtype :: RecurrenceType
  endDate :: "int option"
  daysOfWeek :: "int list jsopt"
  dayOfMonth :: "int jsopt"

record Todo =
  todoId :: string
  todoText :: string
  todoCompleted :: bool

record Activity =
  activityId :: string
  title :: string
  categoryId :: string
  todos :: "Todo list"
  createdAt :: int
  time :: "string option"
  activityNotes :: "string option"
  completed :: bool
  recurrence :: "RecurrenceRule option"
  completedOccurrences :: "string \<rightharpoonup> bool"
  responsiblePersonId :: "string option"

record FutureInstance =
  instanceDate :: Date
  masterActivityId :: string

text \<open>JavaScript truthiness of an optional number: \<open>undefined\<close>, \<open>null\<close> and \<open>0\<close> are
  falsy.\<close>

definition truthyNum :: "int option \<Rightarrow> bool" where
  "truthyNum v = (case v of None \<Rightarrow> False | Some n \<Rightarrow> n \<noteq> 0)"

text \<open>\<open>!!masterActivity.completedOccurrences?.[key]\<close>\<close>

definition isInstanceCompleted :: "Activity \<Rightarrow> string \<Rightarrow> bool" where
  "isInstanceCompleted a k = (completedOccurrences a k = Some True)"

section \<open>The occurrence generator\<close>

definition maxIterations :: nat where
  "maxIterations = 366 * 1"

text \<open>The fast-forward scan of a weekly rule (the inner \<open>while\<close>): from the start of the
  first day of the window, a day at a time, to the first day that is not before the anchor,
  not before the window and on a listed weekday; it gives up once past the window's end.\<close>

function weeklyScan :: "Date \<Rightarrow> int list \<Rightarrow> Date \<Rightarrow> Date \<Rightarrow> Date \<Rightarrow> Date" where
  "weeklyScan created days rangeStartDate rangeEndDate tempDate =
     (if isBefore tempDate created \<or> getDay tempDate \<notin> set days
         \<or> isBefore tempDate rangeStartDate
      then (if isAfter (addDays tempDate 1) rangeEndDate then addDays tempDate 1
            else weeklyScan created days rangeStartDate rangeEndDate (addDays tempDate 1))
      else tempDate)"
  by pat_completeness auto
termination
  by (relation "measure (\<lambda>(c, ds, s, e, t). nat (e - t))")
     (auto simp: isAfter_def addDays_def msPerDay_def)

declare weeklyScan.simps [simp del]

text \<open>The number of times the body of that \<open>while\<close> runs: the same recursion, counting
  the steps instead of returning the date. The source keeps no such count.\<close>

function weeklyScanSteps :: "Date \<Rightarrow> int list \<Rightarrow> Date \<Rightarrow> Date \<Rightarrow> Date \<Rightarrow> nat" where
  "weeklyScanSteps created days rangeStartDate rangeEndDate tempDate =
     (if isBefore tempDate created \<or> getDay tempDate \<notin> set days
         \<or> isBefore tempDate rangeStartDate
      then (if isAfter (addDays tempDate 1) rangeEndDate then 1
            else Suc (weeklyScanSteps created days rangeStartDate rangeEndDate
                        (addDays tempDate 1)))
      else 0)"
  by pat_completeness auto
termination
  by (relation "measure (\<lambda>(c, ds, s, e, t). nat (e - t))")
     (auto simp: isAfter_def addDays_def msPerDay_def)

declare weeklyScanSteps.simps [simp del]

text \<open>Where the walk starts: the anchor, or, when the anchor is before the window, a date
  moved forward according to the period.\<close>

definition startDate :: "Activity \<Rightarrow> RecurrenceRule \<Rightarrow> Date \<Rightarrow> Date \<Rightarrow> Date" where
  "startDate a r rangeStartDate rangeEndDate =
     (if isBefore (createdAt a) rangeStartDate then
        (if rtype r = Daily then rangeStartDate
         else if rtype r = Weekly \<and> present (daysOfWeek r) \<noteq> None
                 \<and> 0 < length (the (present (daysOfWeek r))) then
           weeklyScan (createdAt a) (the (present (daysOfWeek r))) rangeStartDate rangeEndDate
             (dateFnsStartOfDay rangeStartDate)
         else if rtype r = Monthly \<and> truthyNum (present (dayOfMonth r)) then
           (let dom = the (present (dayOfMonth r));
                t0 = setDayOfMonthFn (createdAt a) dom;
                tempMasterStartMonthDay = (if isBefore t0 (createdAt a) then addMonths t0 1 else t0);
                c0 = setDayOfMonthFn rangeStartDate dom;
                c1 = (if isBefore c0 rangeStartDate then addMonths c0 1 else c0)
            in if isBefore c1 tempMasterStartMonthDay then tempMasterStartMonthDay else c1)
         else createdAt a)
      else createdAt a)"

definition seriesEndDate :: "RecurrenceRule \<Rightarrow> Date option" where
  "seriesEndDate r = (if truthyNum (endDate r) then endDate r else None)"

text \<open>The step taken while the current date is still before the anchor; \<open>None\<close> is the
  \<open>break\<close> of the final \<open>else\<close>.\<close>

definition catchUp :: "RecurrenceRule \<Rightarrow> Date \<Rightarrow> Date option" where
  "catchUp r currentDate =
     (case rtype r of
        Daily \<Rightarrow> Some (addDays currentDate 1)
      | Weekly \<Rightarrow> Some (addDays currentDate 1)
      | Monthly \<Rightarrow>
          (let nextMonth = addMonths currentDate 1
           in Some (if truthyNum (present (dayOfMonth r))
                    then setDayOfMonthFn nextMonth (the (present (dayOfMonth r)))
                    else nextMonth))
      | RNone \<Rightarrow> None)"

text \<open>The \<open>switch\<close> on the recurrence type.\<close>

definition isValidOccurrence :: "RecurrenceRule \<Rightarrow> Date \<Rightarrow> bool" where
  "isValidOccurrence r currentDate =
     (case rtype r of
        Daily \<Rightarrow> True
      | Weekly \<Rightarrow>
          (case present (daysOfWeek r) of
             None \<Rightarrow> False
           | Some ds \<Rightarrow> getDay currentDate \<in> set ds)
      | Monthly \<Rightarrow>
          truthyNum (present (dayOfMonth r))
          \<and> Some (getDate currentDate) = present (dayOfMonth r)
      | RNone \<Rightarrow> False)"

text \<open>The step at the end of the loop body; \<open>None\<close> is the \<open>break\<close> of the final
  \<open>else\<close>.\<close>

definition advance :: "RecurrenceRule \<Rightarrow> Date \<Rightarrow> Date option" where
  "advance r currentDate =
     (case rtype r of
        Daily \<Rightarrow> Some (addDays currentDate 1)
      | Weekly \<Rightarrow> Some (addDays currentDate 1)
      | Monthly \<Rightarrow>
          (if truthyNum (present (dayOfMonth r)) then
             (let dom = the (present (dayOfMonth r));
                  currentMonthTargetDay = setDayOfMonthFn currentDate dom
              in if isAfter currentMonthTargetDay currentDate \<and> getDate currentMonthTargetDay = dom
                 then Some currentMonthTargetDay
                 else Some (setDayOfMonthFn (addMonths currentDate 1) dom))
           else Some (addDays currentDate 1))
      | RNone \<Rightarrow> None)"

definition pushInstance :: "Activity \<Rightarrow> RecurrenceRule \<Rightarrow> Date \<Rightarrow> FutureInstance list
    \<Rightarrow> FutureInstance list" where
  "pushInstance a r currentDate instances =
     (if isValidOccurrence r currentDate
         \<and> \<not> isInstanceCompleted a (formatISODate currentDate)
      then instances @ [\<lparr>instanceDate = currentDate, masterActivityId = activityId a\<rparr>]
      else instances)"

text \<open>The main \<open>while\<close> loop. Its state is the counter \<open>iterations\<close>, the current date
  and the instances pushed so far; the result also carries the final value of the counter,
  which the source does not return.\<close>

function walk :: "Activity \<Rightarrow> RecurrenceRule \<Rightarrow> Date \<Rightarrow> nat \<Rightarrow> Date \<Rightarrow> FutureInstance list
    \<Rightarrow> FutureInstance list \<times> nat" where
  "walk a r rangeEndDate iterations currentDate instances =
     (if iterations < maxIterations \<and> \<not> isAfter currentDate rangeEndDate then
        (if seriesEndDate r \<noteq> None \<and> isAfter currentDate (the (seriesEndDate r))
         then (instances, Suc iterations)
         else if isBefore currentDate (createdAt a) then
           (if catchUp r currentDate = None then (instances, Suc iterations)
            else walk a r rangeEndDate (Suc iterations) (the (catchUp r currentDate)) instances)
         else
           (if advance r currentDate = None
            then (pushInstance a r currentDate instances, Suc iterations)
            else walk a r rangeEndDate (Suc iterations) (the (advance r currentDate))
                   (pushInstance a r currentDate instances)))
      else (instances, iterations))"
  by pat_completeness auto
termination
  by (relation "measure (\<lambda>(a, r, e, i, c, xs). maxIterations - i)") auto

declare walk.simps [simp del]

definition generateCounted :: "Activity \<Rightarrow> Date \<Rightarrow> Date \<Rightarrow> FutureInstance list \<times> nat" where
  "generateCounted masterActivity rangeStartDate rangeEndDate =
     (if recurrence masterActivity = None \<or> rtype (the (recurrence masterActivity)) = RNone then
        (if isWithinInterval (createdAt masterActivity) rangeStartDate rangeEndDate
            \<and> \<not> completed masterActivity
         then ([\<lparr>instanceDate = createdAt masterActivity,
                  masterActivityId = activityId masterActivity\<rparr>], 0)
         else ([], 0))
      else
        (let r = the (recurrence masterActivity)
         in walk masterActivity r rangeEndDate 0
              (startDate masterActivity r rangeStartDate rangeEndDate) []))"

definition generateFutureInstancesForNotifications ::
    "Activity \<Rightarrow> Date \<Rightarrow> Date \<Rightarrow> FutureInstance list" where
  "generateFutureInstancesForNotifications masterActivity rangeStartDate rangeEndDate =
     fst (generateCounted masterActivity rangeStartDate rangeEndDate)"

text \<open>The steps of the fast-forward scan in one call of the generator: the scan runs only
  in the weekly branch of \<open>startDate\<close>, under the same tests.\<close>

definition scanSteps :: "Activity \<Rightarrow> Date \<Rightarrow> Date \<Rightarrow> nat" where
  "scanSteps masterActivity rangeStartDate rangeEndDate =
     (if recurrence masterActivity = None \<or> rtype (the (recurrence masterActivity)) = RNone
      then 0
      else
        (let r = the (recurrence masterActivity)
         in if isBefore (createdAt masterActivity) rangeStartDate
               \<and> rtype r = Weekly \<and> present (daysOfWeek r) \<noteq> None
               \<and> 0 < length (the (present (daysOfWeek r)))
            then weeklyScanSteps (createdAt masterActivity) (the (present (daysOfWeek r)))
                   rangeStartDate rangeEndDate (dateFnsStartOfDay rangeStartDate)
            else 0))"

section \<open>The activity store\<close>

text \<open>
  The provider keeps its state in React hooks; the model passes it explicitly. Only the
  parts of the state that the operations below read or write are kept: the history log, the
  toasts and the persisted copies are left out. None of the operations below contains a
  \<open>throw\<close>, so each is a total function from states to states.
\<close>

text \<open>
  Modelled from the spec: the type declarations \<open>AppMode\<close>, \<open>Category\<close> and
  \<open>Assignee\<close> (\<open>@/lib/types\<close>), with the fields of section 3 of the specification;
  the icon component of a category is left out.
\<close>

datatype AppMode = Personal | Work

datatype CategoryMode = ModePersonal | ModeWork | ModeAll

record Category =
  categoryIdent :: string
  categoryName :: string
  iconName :: string
  mode :: CategoryMode

record Assignee =
  assigneeIdent :: string
  assigneeName :: string

record AppState =
  personalActivities :: "Activity list"
  workActivities :: "Activity list"
  allCategories :: "Category list"
  allAssignees :: "Assignee list"
  appModeState :: AppMode
  lastNotificationCheckDay :: "int option"
  notifiedToday :: "string set"

definition getRawActivities :: "AppState \<Rightarrow> Activity list" where
  "getRawActivities st =
     (if appModeState st = Work then workActivities st else personalActivities st)"

definition currentActivitySetter :: "(Activity list \<Rightarrow> Activity list) \<Rightarrow> AppState \<Rightarrow> AppState" where
  "currentActivitySetter f st =
     (if appModeState st = Work then st\<lparr>workActivities := f (workActivities st)\<rparr>
      else st\<lparr>personalActivities := f (personalActivities st)\<rparr>)"

text \<open>\<open>Partial<Activity>\<close>: \<open>None\<close> is a key that is absent (or, for the two fields
  the source tests against \<open>undefined\<close>, undefined); for an optional field, \<open>Some None\<close>
  is a key that is present and empty.\<close>

record ActivityUpdates =
  updId :: "string option"
  updTitle :: "string option"
  updCategoryId :: "string option"
  updTodos :: "Todo list option"
  updCreatedAt :: "int option"
  updTime :: "string option option"
  updNotes :: "string option option"
  updCompleted :: "bool option"
  updRecurrence :: "RecurrenceRule option option"
  updCompletedOccurrences :: "(string \<rightharpoonup> bool) option"
  updResponsiblePersonId :: "string option option"

definition orElse :: "'a option \<Rightarrow> 'a \<Rightarrow> 'a" where
  "orElse v d = (case v of None \<Rightarrow> d | Some x \<Rightarrow> x)"

text \<open>\<open>updates.recurrence?.type === 'none' ? { type: 'none' } : updates.recurrence || act.recurrence\<close>\<close>

definition updatedRecurrence :: "Activity \<Rightarrow> ActivityUpdates \<Rightarrow> RecurrenceRule option" where
  "updatedRecurrence act updates =
     (case updRecurrence updates of
        Some (Some r) \<Rightarrow>
          (if rtype r = RNone
           then Some \<lparr>rtype = RNone, endDate = None, daysOfWeek = Undefined,
                       dayOfMonth = Undefined\<rparr>
           else Some r)
      | _ \<Rightarrow> recurrence act)"

definition storedType :: "Activity \<Rightarrow> RecurrenceType option" where
  "storedType act = map_option rtype (recurrence act)"

definition storedDayOfMonth :: "Activity \<Rightarrow> int jsopt" where
  "storedDayOfMonth act =
     (case recurrence act of None \<Rightarrow> Undefined | Some r \<Rightarrow> dayOfMonth r)"

definition storedDaysOfWeek :: "Activity \<Rightarrow> int list jsopt" where
  "storedDaysOfWeek act =
     (case recurrence act of None \<Rightarrow> Undefined | Some r \<Rightarrow> daysOfWeek r)"

text \<open>The tests of lines 1079 to 1086. \<open>!==\<close> on the two day numbers and on the two
  \<open>JSON.stringify\<close> texts is inequality of the values, \<open>undefined\<close>, \<open>null\<close> and
  present values being pairwise different.\<close>

definition updatedCompletedOccurrences :: "Activity \<Rightarrow> ActivityUpdates \<Rightarrow> (string \<rightharpoonup> bool)" where
  "updatedCompletedOccurrences act updates =
     (case updRecurrence updates of
        Some (Some r) \<Rightarrow>
          (if rtype r = RNone then Map.empty
           else if Some (rtype r) \<noteq> storedType act
                   \<or> dayOfMonth r \<noteq> storedDayOfMonth act
                   \<or> daysOfWeek r \<noteq> storedDaysOfWeek act
                   \<or> (truthyNum (updCreatedAt updates)
                       \<and> the (updCreatedAt updates) \<noteq> createdAt act)
                then Map.empty
                else completedOccurrences act)
      | _ \<Rightarrow> completedOccurrences act)"

definition updatedResponsiblePersonId :: "AppMode \<Rightarrow> Activity \<Rightarrow> ActivityUpdates \<Rightarrow> string option" where
  "updatedResponsiblePersonId m act updates =
     (if m = Personal then orElse (updResponsiblePersonId updates) (responsiblePersonId act)
      else None)"

text \<open>\<open>{ ...act, ...updates, recurrence: \<dots>, completedOccurrences: \<dots>, responsiblePersonId: \<dots> }\<close>\<close>

definition mergeActivity :: "AppMode \<Rightarrow> Activity \<Rightarrow> ActivityUpdates \<Rightarrow> Activity" where
  "mergeActivity m act updates =
     \<lparr>activityId = orElse (updId updates) (activityId act),
      title = orElse (updTitle updates) (title act),
      categoryId = orElse (updCategoryId updates) (categoryId act),
      todos = orElse (updTodos updates) (todos act),
      createdAt = orElse (updCreatedAt updates) (createdAt act),
      time = orElse (updTime updates) (time act),
      activityNotes = orElse (updNotes updates) (activityNotes act),
      completed = orElse (updCompleted updates) (completed act),
      recurrence = updatedRecurrence act updates,
      completedOccurrences = updatedCompletedOccurrences act updates,
      responsiblePersonId = updatedResponsiblePersonId m act updates\<rparr>"

definition updateActivity :: "string \<Rightarrow> ActivityUpdates \<Rightarrow> AppState \<Rightarrow> AppState" where
  "updateActivity ident updates st =
     currentActivitySetter
       (map (\<lambda>act. if activityId act = ident then mergeActivity (appModeState st) act updates
                   else act)) st"

definition deleteActivity :: "string \<Rightarrow> AppState \<Rightarrow> AppState" where
  "deleteActivity ident st =
     currentActivitySetter (filter (\<lambda>act. activityId act \<noteq> ident)) st"

definition toggleLedger :: "string \<Rightarrow> bool \<Rightarrow> (string \<rightharpoonup> bool) \<Rightarrow> (string \<rightharpoonup> bool)" where
  "toggleLedger occurrenceDateKey completedState updatedOccurrences =
     (if completedState then updatedOccurrences(occurrenceDateKey \<mapsto> True)
      else updatedOccurrences(occurrenceDateKey := None))"

definition toggleOccurrenceCompletion :: "string \<Rightarrow> int \<Rightarrow> bool \<Rightarrow> AppState \<Rightarrow> AppState" where
  "toggleOccurrenceCompletion masterId occurrenceDateTimestamp completedState st =
     (let occurrenceDateKey = formatISODate occurrenceDateTimestamp
      in currentActivitySetter
           (map (\<lambda>act. if activityId act = masterId
                       then act\<lparr>completedOccurrences :=
                              toggleLedger occurrenceDateKey completedState
                                (completedOccurrences act)\<rparr>
                       else act)) st)"

definition clearCategory :: "string \<Rightarrow> Activity \<Rightarrow> Activity" where
  "clearCategory cid act = (if categoryId act = cid then act\<lparr>categoryId := []\<rparr> else act)"

definition deleteCategory :: "string \<Rightarrow> AppState \<Rightarrow> AppState" where
  "deleteCategory cid st =
     (case find (\<lambda>cat. categoryIdent cat = cid) (allCategories st) of
        None \<Rightarrow> st
      | Some categoryToDelete \<Rightarrow>
          st\<lparr>allCategories := filter (\<lambda>cat. categoryIdent cat \<noteq> cid) (allCategories st),
             personalActivities := map (clearCategory cid) (personalActivities st),
             workActivities := map (clearCategory cid) (workActivities st)\<rparr>)"

definition clearAssignee :: "string \<Rightarrow> Activity \<Rightarrow> Activity" where
  "clearAssignee aid act =
     (if responsiblePersonId act = Some aid then act\<lparr>responsiblePersonId := None\<rparr> else act)"

definition deleteAssignee :: "string \<Rightarrow> AppState \<Rightarrow> AppState" where
  "deleteAssignee aid st =
     (case find (\<lambda>asg. assigneeIdent asg = aid) (allAssignees st) of
        None \<Rightarrow> st
      | Some assigneeToDelete \<Rightarrow>
          st\<lparr>allAssignees := filter (\<lambda>asg. assigneeIdent asg \<noteq> aid) (allAssignees st),
             personalActivities := map (clearAssignee aid) (personalActivities st)\<rparr>)"

section \<open>The notification scheduler\<close>

text \<open>
  One tick of the interval callback. The callback reads \<open>notifiedToday\<close> and
  \<open>lastNotificationCheckDay\<close> from the render it was created in and queues state updates:
  first the reset (if the day number changed), then one insertion per notification shown.
  React applies the queue in order, and the effect, which lists both pieces of state as
  dependencies, installs a fresh callback on the new state. So a tick is a function from the
  state and the current instant to the new state and the notifications shown.

  A notification is recorded by its type key, which stands for the title and the text that
  the source fetches from the translations. The reading of \<open>HH:MM\<close>
  (\<open>time.split(':').map(Number)\<close>) is a parameter \<open>hm\<close>; \<open>None\<close> stands for a
  component that is not a number, with which every comparison of the source is false.
\<close>

record Emitted =
  typeKey :: string
  emActivityId :: string
  emInstanceDate :: Date

definition notificationKey :: "Emitted \<Rightarrow> string" where
  "notificationKey e =
     emActivityId e @ '':'' @ formatISODate (emInstanceDate e) @ '':'' @ typeKey e"

definition notify :: "string set \<Rightarrow> Activity \<Rightarrow> FutureInstance \<Rightarrow> string \<Rightarrow> Emitted list" where
  "notify notified a instance tk =
     (let e = \<lparr>typeKey = tk, emActivityId = activityId a, emInstanceDate = instanceDate instance\<rparr>
      in if notificationKey e \<notin> notified then [e] else [])"

definition startingSoon :: "(string \<Rightarrow> (int \<times> int) option) \<Rightarrow> string set \<Rightarrow> Date \<Rightarrow> Date
    \<Rightarrow> Activity \<Rightarrow> Emitted list" where
  "startingSoon hm notified now today a =
     (case time a of
        None \<Rightarrow> []
      | Some tm \<Rightarrow>
          if tm = [] then []
          else concat (map (\<lambda>instance.
                 if \<not> isInstanceCompleted a (formatISODate (instanceDate instance)) then
                   (case hm tm of
                      None \<Rightarrow> []
                    | Some (hours, minutes) \<Rightarrow>
                        (let activityDateTime = dateFnsStartOfDay (instanceDate instance)
                               + hours * 3600000 + minutes * 60000;
                             timeDiffMs = activityDateTime - now
                         in if 0 \<le> timeDiffMs \<and> timeDiffMs \<le> 5 * 60 * 1000
                            then notify notified a instance ''5min_soon'' else []))
                 else [])
               (generateFutureInstancesForNotifications a today (dateFnsEndOfDay today))))"

definition upcoming :: "string set \<Rightarrow> Date \<Rightarrow> Activity \<Rightarrow> Emitted list" where
  "upcoming notified today a =
     (case recurrence a of
        None \<Rightarrow> []
      | Some r \<Rightarrow>
          if rtype r = RNone then []
          else concat (map (\<lambda>instance.
                 if isInstanceCompleted a (formatISODate (instanceDate instance)) then []
                 else
                   (let oneDayBeforeInstance = dateFnsStartOfDay (subDays (instanceDate instance) 1);
                        twoDaysBeforeInstance = dateFnsStartOfDay (subDays (instanceDate instance) 2);
                        oneWeekBeforeInstance = dateFnsStartOfDay (subWeeks (instanceDate instance) 1)
                    in if rtype r = Weekly then
                         (if isSameDay today oneDayBeforeInstance
                          then notify notified a instance ''1day_weekly'' else [])
                       else if rtype r = Monthly then
                         (if isSameDay today oneWeekBeforeInstance
                          then notify notified a instance ''1week_monthly'' else [])
                         @ (if isSameDay today twoDaysBeforeInstance
                            then notify notified a instance ''2days_monthly'' else [])
                         @ (if isSameDay today oneDayBeforeInstance
                            then notify notified a instance ''1day_monthly'' else [])
                       else []))
               (generateFutureInstancesForNotifications a (addDays today 1) (addDays today 8))))"

definition schedulerTick :: "(string \<Rightarrow> (int \<times> int) option) \<Rightarrow> Date \<Rightarrow> AppState
    \<Rightarrow> AppState \<times> Emitted list" where
  "schedulerTick hm now st =
     (let today = getStartOfDayUtil now;
          currentDayOfMonthFromNow = getDate now;
          kept = (if lastNotificationCheckDay st \<noteq> None
                     \<and> lastNotificationCheckDay st \<noteq> Some currentDayOfMonthFromNow
                  then {} else notifiedToday st);
          emitted = concat (map (\<lambda>masterActivity.
                        startingSoon hm (notifiedToday st) now today masterActivity
                        @ upcoming (notifiedToday st) today masterActivity)
                      (getRawActivities st))
      in (st\<lparr>lastNotificationCheckDay := Some currentDayOfMonthFromNow,
              notifiedToday := kept \<union> set (map notificationKey emitted)\<rparr>,
          emitted))"

section \<open>Example data\<close>

text \<open>\<open>new Date(year, month, day, hours, minutes)\<close>, with months counted from 0.\<close>

definition localTime :: "int \<Rightarrow> int \<Rightarrow> int \<Rightarrow> int \<Rightarrow> int \<Rightarrow> Date" where
  "localTime y m d h mi = MakeDay y m d * msPerDay + h * 3600000 + mi * 60000"

text \<open>A single, non-repeating activity on 15 January 2024 at 09:00.\<close>

definition singleActivity :: Activity where
  "singleActivity =
     \<lparr>activityId = ''a1'', title = ''Review'', categoryId = ''cat_work'', todos = [],
      createdAt = localTime 2024 0 15 9 0, time = Some ''09:00'', activityNotes = None,
      completed = False, recurrence = None, completedOccurrences = Map.empty,
      responsiblePersonId = Some ''asg_1''\<rparr>"

text \<open>The same activity repeating on the 15th of each month up to a given end date.\<close>

definition monthlyActivity :: "Date \<Rightarrow> Activity" where
  "monthlyActivity e =
     singleActivity\<lparr>recurrence :=
       Some \<lparr>rtype = Monthly, endDate = Some e, daysOfWeek = Undefined, dayOfMonth = Defined 15\<rparr>\<rparr>"

text \<open>An activity anchored on 31 January 2023 repeating on the 31st.\<close>

definition lastDayActivity :: Activity where
  "lastDayActivity =
     singleActivity\<lparr>createdAt := localTime 2023 0 31 0 0, recurrence :=
       Some \<lparr>rtype = Monthly, endDate = None, daysOfWeek = Undefined, dayOfMonth = Defined 31\<rparr>\<rparr>"

text \<open>The same activity repeating weekly on the given weekdays.\<close>

definition weeklyActivity :: "int list \<Rightarrow> Activity" where
  "weeklyActivity ds =
     singleActivity\<lparr>recurrence :=
       Some \<lparr>rtype = Weekly, endDate = None, daysOfWeek = Defined ds, dayOfMonth = Undefined\<rparr>\<rparr>"

text \<open>A daily activity anchored at the epoch, 1 January 1970 at 00:00, whose series ends
  on that same day: \<open>endDate\<close> is the timestamp 0.\<close>

definition epochDailyActivity :: Activity where
  "epochDailyActivity =
     singleActivity\<lparr>createdAt := 0, recurrence :=
       Some \<lparr>rtype = Daily, endDate = Some 0, daysOfWeek = Undefined,
             dayOfMonth = Undefined\<rparr>\<rparr>"

definition exampleState :: "Activity list \<Rightarrow> AppState" where
  "exampleState acts =
     \<lparr>personalActivities = acts, workActivities = [],
      allCategories = [\<lparr>categoryIdent = ''cat_work'', categoryName = ''Work'',
                        iconName = ''Briefcase'', mode = ModeAll\<rparr>],
      allAssignees = [\<lparr>assigneeIdent = ''asg_1'', assigneeName = ''Ana''\<rparr>],
      appModeState = Personal, lastNotificationCheckDay = None, notifiedToday = {}\<rparr>"

text \<open>A state whose work collection holds an activity with a responsible person.\<close>

definition assignedWorkState :: AppState where
  "assignedWorkState =
     (exampleState [singleActivity])\<lparr>workActivities := [singleActivity\<lparr>activityId := ''w1''\<rparr>]\<rparr>"

definition noUpdates :: ActivityUpdates where
  "noUpdates =
     \<lparr>updId = None, updTitle = None, updCategoryId = None, updTodos = None, updCreatedAt = None,
      updTime = None, updNotes = None, updCompleted = None, updRecurrence = None,
      updCompletedOccurrences = None, updResponsiblePersonId = None\<rparr>"

text \<open>A stand-in for the reading of \<open>HH:MM\<close> that knows the one time used in the
  examples.\<close>

definition nineOClock :: "string \<Rightarrow> (int \<times> int) option" where
  "nineOClock s = (if s = ''09:00'' then Some (9, 0) else None)"

text \<open>A weekly activity on Mondays and Wednesdays whose occurrence of 15 January 2024 is
  marked complete, and an update that keeps its rule and moves its anchor to the epoch.\<close>

definition markedActivity :: Activity where
  "markedActivity = (weeklyActivity [1, 3])\<lparr>completedOccurrences := [''2024-01-15'' \<mapsto> True]\<rparr>"

definition anchorToEpoch :: ActivityUpdates where
  "anchorToEpoch =
     noUpdates\<lparr>updCreatedAt := Some 0, updRecurrence := Some (recurrence markedActivity)\<rparr>"

section \<open>Facts about the calendar\<close>

lemma div_step:
  fixes a k :: int
  assumes "0 < k"
  shows "(a + 1) div k = a div k + (if (a + 1) mod k = 0 then 1 else 0)"
proof (cases "(a + 1) mod k = 0")
  case True
  then have "a + 1 = k * ((a + 1) div k)"
    using mult_div_mod_eq [of k "a + 1"] by linarith
  then have "a = k * ((a + 1) div k - 1) + (k - 1)"
    by (simp add: algebra_simps)
  then have "a div k = (a + 1) div k - 1"
    using assms by (intro int_div_pos_eq [where r = "k - 1"]) auto
  with True show ?thesis by simp
next
  case False
  have r: "0 \<le> (a + 1) mod k" "(a + 1) mod k < k"
    using assms by simp_all
  have "a = k * ((a + 1) div k) + ((a + 1) mod k - 1)"
    using mult_div_mod_eq [of k "a + 1"] by linarith
  then have "a div k = (a + 1) div k"
    using assms r False by (intro int_div_pos_eq [where r = "(a + 1) mod k - 1"]) auto
  with False show ?thesis by simp
qed

lemma mod_shift:
  fixes y c k :: int
  assumes "c mod k = 0"
  shows "((y - c) mod k = 0) = (y mod k = 0)"
  using assms by (metis diff_zero mod_diff_right_eq mod_diff_eq)


lemma leap_count_step:
  fixes y c k :: int
  assumes "0 < k" "c mod k = 0"
  shows "(y - c) div k = (y - (c + 1)) div k + (if y mod k = 0 then 1 else 0)"
proof -
  have e: "y - (c + 1) + 1 = y - c"
    by simp
  have m: "((y - c) mod k = 0) = (y mod k = 0)"
    using assms(2) by (rule mod_shift)
  have "(y - (c + 1) + 1) div k
      = (y - (c + 1)) div k + (if (y - (c + 1) + 1) mod k = 0 then 1 else 0)"
    using assms(1) by (rule div_step)
  then show ?thesis
    unfolding e m .
qed

lemma DayFromYear_next: "DayFromYear (y + 1) = DayFromYear y + DaysInYear y"
proof -
  define p4 where "p4 = (y mod 4 = 0)"
  define p100 where "p100 = (y mod 100 = 0)"
  define p400 where "p400 = (y mod 400 = 0)"
  have s4: "(y - 1968) div 4 = (y - 1969) div 4 + (if p4 then 1 else 0)"
    using leap_count_step [of 4 1968 y] by (simp add: p4_def)
  have s100: "(y - 1900) div 100 = (y - 1901) div 100 + (if p100 then 1 else 0)"
    using leap_count_step [of 100 1900 y] by (simp add: p100_def)
  have s400: "(y - 1600) div 400 = (y - 1601) div 400 + (if p400 then 1 else 0)"
    using leap_count_step [of 400 1600 y] by (simp add: p400_def)
  have c1: "p4" if "p100"
    using that mod_mod_cancel [of 4 100 y] by (simp add: p4_def p100_def)
  have c2: "p100" if "p400"
    using that mod_mod_cancel [of 100 400 y] by (simp add: p100_def p400_def)
  have d: "DaysInYear y = (if p4 \<and> (\<not> p100 \<or> p400) then 366 else 365)"
    by (simp add: DaysInYear_def InLeapYear_def p4_def p100_def p400_def)
  have "DayFromYear (y + 1)
      = 365 * (y - 1969) + (y - 1968) div 4 - (y - 1900) div 100 + (y - 1600) div 400"
    by (simp add: DayFromYear_def)
  also have "\<dots> = DayFromYear y + 365 + (if p4 then 1 else 0)
        - (if p100 then 1 else 0) + (if p400 then 1 else 0)"
    unfolding s4 s100 s400 DayFromYear_def by (simp add: algebra_simps)
  also have "\<dots> = DayFromYear y + DaysInYear y"
    unfolding d using c1 c2 by (cases p4; cases p100; cases p400) simp_all
  finally show ?thesis .
qed

lemma yearWalk_day:
  "yearWalk y d = (y', d') \<Longrightarrow> DayFromYear y' + d' = DayFromYear y + d"
proof (induction y d rule: yearWalk.induct)
  case (1 y d)
  show ?case
  proof (cases "d < 0")
    case True
    with "1.prems" have "yearWalk (y - 1) (d + DaysInYear (y - 1)) = (y', d')"
      by (subst (asm) yearWalk.simps) simp
    with "1.IH"(1) True
    have "DayFromYear y' + d' = DayFromYear (y - 1) + (d + DaysInYear (y - 1))"
      by blast
    then show ?thesis
      using DayFromYear_next [of "y - 1"] by simp
  next
    case False
    show ?thesis
    proof (cases "DaysInYear y \<le> d")
      case True
      with "1.prems" False have "yearWalk (y + 1) (d - DaysInYear y) = (y', d')"
        by (subst (asm) yearWalk.simps) simp
      with "1.IH"(2) False True
      have "DayFromYear y' + d' = DayFromYear (y + 1) + (d - DaysInYear y)"
        by blast
      then show ?thesis
        using DayFromYear_next [of y] by simp
    next
      case nle: False
      with "1.prems" False have "y' = y \<and> d' = d"
        by (subst (asm) yearWalk.simps) simp
      then show ?thesis by simp
    qed
  qed
qed

lemma yearWalk_range:
  "yearWalk y d = (y', d') \<Longrightarrow> 0 \<le> d' \<and> d' < DaysInYear y'"
proof (induction y d rule: yearWalk.induct)
  case (1 y d)
  show ?case
  proof (cases "d < 0")
    case True
    with "1.prems" have "yearWalk (y - 1) (d + DaysInYear (y - 1)) = (y', d')"
      by (subst (asm) yearWalk.simps) simp
    with "1.IH"(1) True show ?thesis by blast
  next
    case False
    show ?thesis
    proof (cases "DaysInYear y \<le> d")
      case True
      with "1.prems" False have "yearWalk (y + 1) (d - DaysInYear y) = (y', d')"
        by (subst (asm) yearWalk.simps) simp
      with "1.IH"(2) False True show ?thesis by blast
    next
      case nle: False
      with "1.prems" False have "y' = y \<and> d' = d"
        by (subst (asm) yearWalk.simps) simp
      with False nle show ?thesis by simp
    qed
  qed
qed

lemma date_in_month:
  assumes "0 \<le> d" "d < DaysInYear y"
  shows "1 \<le> d - monthStart y (MonthFromDay y d) + 1
       \<and> d - monthStart y (MonthFromDay y d) + 1 \<le> DaysInMonth y (MonthFromDay y d)"
proof (cases "InLeapYear y")
  case True
  with assms have "d < 366" by (simp add: DaysInYear_def)
  with True assms(1) show ?thesis
    by (simp add: MonthFromDay_def monthStart_def DaysInMonth_def)
next
  case False
  with assms have "d < 365" by (simp add: DaysInYear_def)
  with False assms(1) show ?thesis
    by (simp add: MonthFromDay_def monthStart_def DaysInMonth_def)
qed

lemma getDate_range:
  "1 \<le> getDate t \<and> getDate t \<le> DaysInMonth (getFullYear t) (getMonth t)"
proof -
  obtain y d where yd: "YearAndDay (Day t) = (y, d)"
    by (cases "YearAndDay (Day t)")
  then have "yearWalk (1970 + Day t div 366) (Day t - DayFromYear (1970 + Day t div 366)) = (y, d)"
    by (simp add: YearAndDay_def Let_def)
  then have "0 \<le> d \<and> d < DaysInYear y"
    by (rule yearWalk_range)
  then have "1 \<le> d - monthStart y (MonthFromDay y d) + 1
       \<and> d - monthStart y (MonthFromDay y d) + 1 \<le> DaysInMonth y (MonthFromDay y d)"
    using date_in_month by blast
  moreover have "getDate t = d - monthStart y (MonthFromDay y d) + 1"
    by (simp add: getDate_def yd)
  moreover have "getFullYear t = y" "getMonth t = MonthFromDay y d"
    by (simp_all add: getFullYear_def getMonth_def yd)
  ultimately show ?thesis by simp
qed

lemma YearAndDay_spec:
  assumes "YearAndDay n = (y, d)"
  shows "DayFromYear y + d = n \<and> 0 \<le> d \<and> d < DaysInYear y"
proof -
  from assms
  have w: "yearWalk (1970 + n div 366) (n - DayFromYear (1970 + n div 366)) = (y, d)"
    by (simp add: YearAndDay_def Let_def)
  from yearWalk_day [OF w] yearWalk_range [OF w] show ?thesis
    by simp
qed

text \<open>\<open>YearFromTime\<close> as ECMAScript has it: the year whose first day is the latest one
  not after the day.\<close>

lemma getFullYear_spec:
  "DayFromYear (getFullYear t) \<le> Day t \<and> Day t < DayFromYear (getFullYear t + 1)"
proof -
  obtain y d where yd: "YearAndDay (Day t) = (y, d)"
    by (cases "YearAndDay (Day t)")
  from YearAndDay_spec [OF yd] DayFromYear_next [of y] show ?thesis
    by (simp add: getFullYear_def yd)
qed

lemma MonthFromDay_range:
  "0 \<le> MonthFromDay y d \<and> MonthFromDay y d < 12"
  by (simp add: MonthFromDay_def)

lemma MakeDay_of_reading:
  "MakeDay (getFullYear t) (getMonth t) (getDate t + n) = Day t + n"
proof -
  obtain y d where yd: "YearAndDay (Day t) = (y, d)"
    by (cases "YearAndDay (Day t)")
  have m: "MonthFromDay y d div 12 = 0" "MonthFromDay y d mod 12 = MonthFromDay y d"
    using MonthFromDay_range [of y d] by simp_all
  have "MakeDay y (MonthFromDay y d) (d - monthStart y (MonthFromDay y d) + 1 + n)
      = DayFromYear y + d + n"
    by (simp add: MakeDay_def m)
  with YearAndDay_spec [OF yd] show ?thesis
    by (simp add: getFullYear_def getMonth_def getDate_def yd)
qed

text \<open>date-fns writes \<open>addDays\<close> as \<open>setDate(getDate() + amount)\<close>.\<close>

lemma addDays_as_setDate:
  "addDays t n = setDayOfMonthFn t (getDate t + n)"
proof -
  have "t = Day t * msPerDay + TimeWithinDay t"
    by (simp add: Day_def TimeWithinDay_def)
  then have "t + n * msPerDay = (Day t + n) * msPerDay + TimeWithinDay t"
    by (simp add: algebra_simps)
  then show ?thesis
    by (simp add: addDays_def setDayOfMonthFn_def MakeDay_of_reading)
qed

section \<open>Facts about the walk\<close>

lemma walk_instances:
  assumes "\<forall>x\<in>set instances. Q x"
    and "\<And>c. \<not> (seriesEndDate r \<noteq> None \<and> isAfter c (the (seriesEndDate r)))
            \<Longrightarrow> isValidOccurrence r c
            \<Longrightarrow> Q \<lparr>instanceDate = c, masterActivityId = activityId a\<rparr>"
  shows "\<forall>x\<in>set (fst (walk a r rangeEndDate iterations currentDate instances)). Q x"
  using assms
proof (induction a r rangeEndDate iterations currentDate instances rule: walk.induct)
  case (1 a r rangeEndDate iterations currentDate instances)
  have push: "\<not> (seriesEndDate r \<noteq> None \<and> isAfter currentDate (the (seriesEndDate r)))
     \<Longrightarrow> \<forall>x\<in>set (pushInstance a r currentDate instances). Q x"
    using "1.prems" by (auto simp: pushInstance_def)
  show ?case
    apply (subst walk.simps)
    using "1.IH" "1.prems" push
    by (auto split: if_splits)
qed

lemma walk_iterations:
  "iterations \<le> maxIterations \<Longrightarrow>
     snd (walk a r rangeEndDate iterations currentDate instances) \<le> maxIterations"
proof (induction a r rangeEndDate iterations currentDate instances rule: walk.induct)
  case (1 a r rangeEndDate iterations currentDate instances)
  show ?case
    apply (subst walk.simps)
    using "1.IH" "1.prems"
    by (auto split: if_splits)
qed

lemma generate_recurring:
  assumes "recurrence a = Some r" "rtype r \<noteq> RNone"
  shows "generateFutureInstancesForNotifications a s e = fst (walk a r e 0 (startDate a r s e) [])"
  using assms
  by (simp add: generateFutureInstancesForNotifications_def generateCounted_def)


text \<open>The cut-off of line 188, for an end date that is not the timestamp 0.\<close>

lemma cutoff_at_truthy_endDate:
  assumes "recurrence a = Some r" "rtype r \<noteq> RNone" "endDate r = Some e" "e \<noteq> 0"
  shows "\<forall>x\<in>set (generateFutureInstancesForNotifications a rangeStart rangeEnd).
           instanceDate x \<le> e"
proof -
  have se: "seriesEndDate r = Some e"
    using assms by (simp add: seriesEndDate_def truthyNum_def)
  have "\<forall>x\<in>set (fst (walk a r rangeEnd 0 (startDate a r rangeStart rangeEnd) [])).
          instanceDate x \<le> e"
    by (rule walk_instances) (auto simp: se isAfter_def)
  then show ?thesis
    using assms by (simp add: generate_recurring)
qed

text \<open>The fast-forward scan returns the date reached after the steps counted.\<close>

lemma weeklyScan_steps:
  "weeklyScan c ds s e t = addDays t (int (weeklyScanSteps c ds s e t))"
proof (induction c ds s e t rule: weeklyScan.induct)
  case (1 c ds s e t)
  show ?case
  proof (cases "isBefore t c \<or> getDay t \<notin> set ds \<or> isBefore t s")
    case False
    then show ?thesis
      by (subst weeklyScan.simps, subst weeklyScanSteps.simps) (simp add: addDays_def)
  next
    case True
    show ?thesis
    proof (cases "isAfter (addDays t 1) e")
      case after: True
      with True show ?thesis
        by (subst weeklyScan.simps, subst weeklyScanSteps.simps) simp
    next
      case notafter: False
      with True "1.IH"
      have "weeklyScan c ds s e (addDays t 1)
            = addDays (addDays t 1) (int (weeklyScanSteps c ds s e (addDays t 1)))"
        by blast
      with True notafter show ?thesis
        by (subst weeklyScan.simps, subst weeklyScanSteps.simps)
           (simp add: addDays_def algebra_simps)
    qed
  qed
qed

text \<open>The scan leaves its loop at the latest on the first day past the end of the window.\<close>

lemma weeklyScanSteps_window:
  "weeklyScanSteps c ds s e t \<le> nat ((e - t) div msPerDay) + 1"
proof (induction c ds s e t rule: weeklyScanSteps.induct)
  case (1 c ds s e t)
  show ?case
  proof (cases "isBefore t c \<or> getDay t \<notin> set ds \<or> isBefore t s")
    case False
    then show ?thesis
      by (subst weeklyScanSteps.simps) simp
  next
    case True
    show ?thesis
    proof (cases "isAfter (addDays t 1) e")
      case after: True
      with True show ?thesis
        by (subst weeklyScanSteps.simps) simp
    next
      case notafter: False
      with True "1.IH"
      have ih: "weeklyScanSteps c ds s e (addDays t 1)
            \<le> nat ((e - addDays t 1) div msPerDay) + 1"
        by blast
      from notafter have le: "msPerDay \<le> e - t"
        by (simp add: isAfter_def addDays_def)
      have "(e - t) div msPerDay = (e - t - msPerDay) div msPerDay + 1"
        using div_add_self2 [of msPerDay "e - t - msPerDay"] by (simp add: msPerDay_def)
      moreover have "0 \<le> (e - t - msPerDay) div msPerDay"
        using le by (simp add: msPerDay_def)
      ultimately have "nat ((e - addDays t 1) div msPerDay) + 1 = nat ((e - t) div msPerDay)"
        by (simp add: addDays_def algebra_simps nat_add_distrib)
      with ih True notafter show ?thesis
        by (subst weeklyScanSteps.simps) simp
    qed
  qed
qed

lemma scanSteps_window:
  "scanSteps a s e \<le> nat ((e - dateFnsStartOfDay s) div msPerDay) + 1"
  using weeklyScanSteps_window [of "createdAt a" _ s e "dateFnsStartOfDay s"]
  by (simp add: scanSteps_def Let_def)

lemma getDay_addDays:
  "getDay (addDays t j) = (getDay t + j) mod 7"
proof -
  have "Day (t + j * msPerDay) = Day t + j"
    by (simp add: Day_def msPerDay_def)
  then show ?thesis
    by (simp add: getDay_def addDays_def mod_simps algebra_simps)
qed

lemma getDay_range:
  "0 \<le> getDay t \<and> getDay t < 7"
  by (simp add: getDay_def)

text \<open>With no weekday between 0 and 6 in the list, the scan runs to the end of the window.\<close>

lemma weeklyScanSteps_no_weekday:
  assumes "\<forall>d\<in>set ds. d < 0 \<or> 6 < d" and "t \<le> e"
  shows "weeklyScanSteps c ds s e t = nat ((e - t) div msPerDay) + 1"
  using assms
proof (induction c ds s e t rule: weeklyScanSteps.induct)
  case (1 c ds s e t)
  have notin: "getDay t \<notin> set ds"
    using "1.prems"(1) getDay_range [of t] by force
  show ?case
  proof (cases "isAfter (addDays t 1) e")
    case True
    then have "e - t < msPerDay"
      by (simp add: isAfter_def addDays_def)
    with "1.prems"(2) have "(e - t) div msPerDay = 0"
      by simp
    with True notin show ?thesis
      by (subst weeklyScanSteps.simps) simp
  next
    case False
    then have le: "msPerDay \<le> e - t"
      by (simp add: isAfter_def addDays_def)
    have ih: "weeklyScanSteps c ds s e (addDays t 1)
            = nat ((e - addDays t 1) div msPerDay) + 1"
      using "1.IH" notin False "1.prems"(1) le by (simp add: addDays_def)
    have "(e - t) div msPerDay = (e - t - msPerDay) div msPerDay + 1"
      using div_add_self2 [of msPerDay "e - t - msPerDay"] by (simp add: msPerDay_def)
    moreover have "0 \<le> (e - t - msPerDay) div msPerDay"
      using le by (simp add: msPerDay_def)
    ultimately have "nat ((e - addDays t 1) div msPerDay) + 1 = nat ((e - t) div msPerDay)"
      by (simp add: addDays_def algebra_simps nat_add_distrib)
    with ih notin False show ?thesis
      by (subst weeklyScanSteps.simps) simp
  qed
qed

lemma weeklyScanSteps_stop:
  assumes "\<not> (isBefore (addDays t (int n)) c \<or> getDay (addDays t (int n)) \<notin> set ds
              \<or> isBefore (addDays t (int n)) s)"
  shows "weeklyScanSteps c ds s e t \<le> n"
  using assms
proof (induction n arbitrary: t)
  case 0
  then show ?case
    by (subst weeklyScanSteps.simps) (simp add: addDays_def)
next
  case (Suc n)
  have eq: "addDays (addDays t 1) (int n) = addDays t (int (Suc n))"
    by (simp add: addDays_def algebra_simps)
  from Suc.prems have "weeklyScanSteps c ds s e (addDays t 1) \<le> n"
    by (intro Suc.IH) (simp only: eq, simp)
  then show ?case
    by (subst weeklyScanSteps.simps) simp
qed

lemma weekday_within_a_week:
  fixes d w :: int
  assumes "0 \<le> d" "d < 7"
  shows "\<exists>j. 1 \<le> j \<and> j \<le> 7 \<and> (w + j) mod 7 = d"
proof -
  define m where "m = (d - w) mod 7"
  have m: "0 \<le> m" "m < 7"
    by (simp_all add: m_def)
  have "(w + m) mod 7 = (w + (d - w)) mod 7"
    unfolding m_def by (simp add: mod_add_right_eq)
  then have wm: "(w + m) mod 7 = d"
    using assms by simp
  show ?thesis
  proof (cases "m = 0")
    case True
    with wm have "(w + 7) mod 7 = d"
      by simp
    then show ?thesis
      by (intro exI [of _ 7]) simp
  next
    case False
    with m wm show ?thesis
      by (intro exI [of _ m]) simp
  qed
qed

text \<open>From the second day scanned on, the date is neither before the window nor before
  the anchor, so the scan stops at the first listed weekday, within a week.\<close>

lemma scanSteps_weekday:
  assumes "recurrence a = Some r" "rtype r = Weekly" "daysOfWeek r = Defined ds"
    and "d \<in> set ds" "0 \<le> d" "d < 7"
  shows "scanSteps a s e \<le> 7"
proof (cases "isBefore (createdAt a) s")
  case False
  then show ?thesis
    using assms by (simp add: scanSteps_def)
next
  case True
  define t where "t = dateFnsStartOfDay s"
  obtain j where j: "1 \<le> j" "j \<le> 7" "(getDay t + j) mod 7 = d"
    using weekday_within_a_week [OF assms(5,6), of "getDay t"] by blast
  have "s mod msPerDay < msPerDay"
    by (simp add: msPerDay_def)
  moreover have "msPerDay \<le> j * msPerDay"
    using j(1) by (simp add: msPerDay_def)
  ultimately have after: "s \<le> addDays t j"
    by (simp add: t_def dateFnsStartOfDay_def TimeWithinDay_def addDays_def)
  have "\<not> (isBefore (addDays t (int (nat j))) (createdAt a)
            \<or> getDay (addDays t (int (nat j))) \<notin> set ds
            \<or> isBefore (addDays t (int (nat j))) s)"
    using after True j assms(4) by (simp add: isBefore_def getDay_addDays)
  then have "weeklyScanSteps (createdAt a) ds s e t \<le> nat j"
    by (rule weeklyScanSteps_stop)
  with j(2) have "weeklyScanSteps (createdAt a) ds s e t \<le> 7"
    by simp
  then show ?thesis
    using assms True by (simp add: scanSteps_def t_def)
qed

lemma weekly_without_weekday:
  assumes "recurrence a = Some r" "rtype r = Weekly"
    and "present (daysOfWeek r) = None \<or> daysOfWeek r = Defined []"
  shows "scanSteps a s e = 0 \<and> generateFutureInstancesForNotifications a s e = []"
proof -
  have nv: "\<not> isValidOccurrence r c" for c
    using assms by (auto simp: isValidOccurrence_def)
  have "\<forall>x\<in>set (fst (walk a r e 0 (startDate a r s e) [])). False"
    by (rule walk_instances) (simp_all add: nv)
  then have "set (fst (walk a r e 0 (startDate a r s e) [])) = {}"
    by auto
  then have "fst (walk a r e 0 (startDate a r s e) []) = []"
    by simp
  then have "generateFutureInstancesForNotifications a s e = []"
    using assms by (simp add: generate_recurring)
  moreover have "scanSteps a s e = 0"
    using assms by (auto simp: scanSteps_def)
  ultimately show ?thesis by simp
qed

text \<open>A daily or weekly walk without an end date that has room in the window uses every
  iteration the cap allows.\<close>

lemma walk_runs_to_the_cap:
  assumes "rtype r = Daily \<or> rtype r = Weekly"
    and "seriesEndDate r = None"
    and "createdAt a \<le> c"
    and "i \<le> maxIterations"
    and "c + (int maxIterations - 1 - int i) * msPerDay \<le> rangeEnd"
  shows "snd (walk a r rangeEnd i c xs) = maxIterations"
  using assms(3-5)
proof (induction "maxIterations - i" arbitrary: i c xs)
  case 0
  then have "i = maxIterations" by simp
  then show ?case
    by (subst walk.simps) simp
next
  case (Suc n)
  then have lt: "i < maxIterations" by simp
  then have "0 \<le> (int maxIterations - 1 - int i) * msPerDay"
    by (simp add: msPerDay_def)
  with Suc.prems have inwin: "\<not> isAfter c rangeEnd"
    by (simp add: isAfter_def)
  have nb: "\<not> isBefore c (createdAt a)"
    using Suc.prems by (simp add: isBefore_def)
  have adv: "advance r c = Some (addDays c 1)"
    using assms(1) by (auto simp: advance_def)
  have "snd (walk a r rangeEnd (Suc i) (addDays c 1) (pushInstance a r c xs)) = maxIterations"
  proof (rule Suc.hyps(1))
    show "n = maxIterations - Suc i"
      using Suc.hyps(2) by simp
    show "createdAt a \<le> addDays c 1"
      using Suc.prems by (simp add: addDays_def msPerDay_def)
    show "Suc i \<le> maxIterations"
      using lt by simp
    show "addDays c 1 + (int maxIterations - 1 - int (Suc i)) * msPerDay \<le> rangeEnd"
      using Suc.prems by (simp add: addDays_def algebra_simps)
  qed
  with lt inwin nb adv assms(2) show ?case
    by (subst walk.simps) simp
qed

section \<open>Evaluation of the examples\<close>

lemmas calendar_defs = MakeDay_def DayFromYear_def monthStart_def InLeapYear_def msPerDay_def
  Day_def TimeWithinDay_def DaysInYear_def YearAndDay_def MonthFromDay_def getFullYear_def
  getMonth_def getDate_def getDay_def setDayOfMonthFn_def addMonths_def addDays_def
  dateFnsStartOfDay_def isBefore_def isAfter_def isWithinInterval_def yearWalk.simps Let_def

lemmas generator_defs = generateFutureInstancesForNotifications_def generateCounted_def
  walk.simps startDate_def seriesEndDate_def truthyNum_def catchUp_def advance_def
  isValidOccurrence_def pushInstance_def isInstanceCompleted_def maxIterations_def
  weeklyScan.simps

lemmas key_defs = formatISODate_def addLeadingZeros_def digits.simps

lemma localTime_values:
  "localTime 2024 0 1 0 0 = 1704067200000"
  "localTime 2024 0 10 0 0 = 1704844800000"
  "localTime 2024 0 15 9 0 = 1705309200000"
  "localTime 2024 1 15 9 0 = 1707987600000"
  "localTime 2024 2 15 9 0 = 1710493200000"
  "localTime 2024 3 15 0 0 = 1713139200000"
  "localTime 2024 3 15 9 0 = 1713171600000"
  "localTime 2024 11 31 0 0 = 1735603200000"
  "localTime 2023 0 1 0 0 = 1672531200000"
  "localTime 2023 0 31 0 0 = 1675123200000"
  "localTime 2023 5 30 0 0 = 1688083200000"
  "localTime 1970 0 1 0 0 = 0"
  "localTime 1970 0 4 0 0 = 259200000"
  "localTime 2024 0 15 8 56 = 1705308960000"
  "localTime 2024 0 15 8 57 = 1705309020000"
  "localTime 2024 0 16 8 56 = 1705395360000"
  "localTime 2024 1 1 0 0 = 1706745600000"
  "localTime 2026 1 1 0 0 = 1769904000000"
  "localTime 2024 3 15 23 59 = 1713225540000"
  by (simp_all add: localTime_def MakeDay_def DayFromYear_def monthStart_def InLeapYear_def
      msPerDay_def)

lemma singleActivity_fields:
  "activityId singleActivity = ''a1''"
  "createdAt singleActivity = 1705309200000"
  "completed singleActivity = False"
  "recurrence singleActivity = None"
  "completedOccurrences singleActivity = Map.empty"
  "time singleActivity = Some ''09:00''"
  "categoryId singleActivity = ''cat_work''"
  "responsiblePersonId singleActivity = Some ''asg_1''"
  by (simp_all add: singleActivity_def localTime_values)

lemma monthlyActivity_fields:
  "activityId (monthlyActivity e) = ''a1''"
  "createdAt (monthlyActivity e) = 1705309200000"
  "completed (monthlyActivity e) = False"
  "recurrence (monthlyActivity e) =
     Some \<lparr>rtype = Monthly, endDate = Some e, daysOfWeek = Undefined, dayOfMonth = Defined 15\<rparr>"
  "completedOccurrences (monthlyActivity e) = Map.empty"
  by (simp_all add: monthlyActivity_def singleActivity_fields)

lemma lastDayActivity_fields:
  "activityId lastDayActivity = ''a1''"
  "createdAt lastDayActivity = 1675123200000"
  "recurrence lastDayActivity =
     Some \<lparr>rtype = Monthly, endDate = None, daysOfWeek = Undefined, dayOfMonth = Defined 31\<rparr>"
  "completedOccurrences lastDayActivity = Map.empty"
  by (simp_all add: lastDayActivity_def singleActivity_fields localTime_values)

lemma weeklyActivity_fields:
  "activityId (weeklyActivity ds) = ''a1''"
  "createdAt (weeklyActivity ds) = 1705309200000"
  "recurrence (weeklyActivity ds) =
     Some \<lparr>rtype = Weekly, endDate = None, daysOfWeek = Defined ds, dayOfMonth = Undefined\<rparr>"
  "completedOccurrences (weeklyActivity ds) = Map.empty"
  by (simp_all add: weeklyActivity_def singleActivity_fields)

lemma epochDailyActivity_fields:
  "activityId epochDailyActivity = ''a1''"
  "createdAt epochDailyActivity = 0"
  "recurrence epochDailyActivity =
     Some \<lparr>rtype = Daily, endDate = Some 0, daysOfWeek = Undefined, dayOfMonth = Undefined\<rparr>"
  "completedOccurrences epochDailyActivity = Map.empty"
  by (simp_all add: epochDailyActivity_def singleActivity_fields)

lemma epoch_daily:
  "map instanceDate (generateFutureInstancesForNotifications epochDailyActivity 0 259200000)
     = [0, 86400000, 172800000, 259200000]"
  by (simp add: epochDailyActivity_fields generator_defs key_defs calendar_defs
      cong: let_weak_cong)



lemma scenario_last_day:
  "map instanceDate (generateFutureInstancesForNotifications lastDayActivity
        1672531200000 1688083200000)
     = [1675123200000, 1680220800000, 1685491200000]"
  by (simp add: lastDayActivity_fields generator_defs key_defs calendar_defs cong: let_weak_cong)

lemma scenario_keys:
  "formatISODate 1705309200000 = ''2024-01-15''"
  "formatISODate 1707987600000 = ''2024-02-15''"
  "formatISODate 1710493200000 = ''2024-03-15''"
  "formatISODate 1713171600000 = ''2024-04-15''"
  "formatISODate 1675123200000 = ''2023-01-31''"
  "formatISODate 1680220800000 = ''2023-03-31''"
  "formatISODate 1685491200000 = ''2023-05-31''"
  by (simp_all add: key_defs calendar_defs cong: let_weak_cong)

text \<open>When the anchor is before the window, the fast-forward of a monthly rule starts from
  the start of the window and keeps its time of day: over the window of 15 April 2024 alone,
  the activity of the scenario with the end date 2024-04-15 00:00 has an occurrence on
  15 April, at 00:00.\<close>

lemma scenario_window_of_one_day:
  "map instanceDate (generateFutureInstancesForNotifications (monthlyActivity 1713139200000)
        1713139200000 1713225540000)
     = [1713139200000]"
  by (simp add: monthlyActivity_fields generator_defs key_defs calendar_defs cong: let_weak_cong)

text \<open>A weekly activity on Mondays over the window from 1 February 2024, a Thursday, to
  1 February 2026: the scan takes four steps to the first Monday.\<close>

lemma monday_scan:
  "weeklyScanSteps 1705309200000 [1] 1706745600000 1769904000000 1706745600000 = 4"
  by (simp add: weeklyScanSteps.simps isBefore_def isAfter_def addDays_def getDay_def Day_def
      msPerDay_def)

lemma monday_steps:
  "scanSteps (weeklyActivity [1]) 1706745600000 1769904000000 = 4"
  by (simp add: scanSteps_def weeklyActivity_fields isBefore_def dateFnsStartOfDay_def
      TimeWithinDay_def msPerDay_def monday_scan)

lemma monday_walk:
  "snd (generateCounted (weeklyActivity [1]) 1706745600000 1769904000000) = 366"
proof -
  let ?r = "\<lparr>rtype = Weekly, endDate = None, daysOfWeek = Defined [1], dayOfMonth = Undefined\<rparr>"
  have start: "startDate (weeklyActivity [1]) ?r 1706745600000 1769904000000
                 = addDays 1706745600000 4"
    by (simp add: startDate_def weeklyActivity_fields isBefore_def dateFnsStartOfDay_def
        TimeWithinDay_def msPerDay_def weeklyScan_steps monday_scan)
  have "snd (walk (weeklyActivity [1]) ?r 1769904000000 0 (addDays 1706745600000 4) [])
          = maxIterations"
    by (rule walk_runs_to_the_cap)
       (simp_all add: seriesEndDate_def truthyNum_def weeklyActivity_fields addDays_def
          msPerDay_def maxIterations_def)
  then show ?thesis
    by (simp add: generateCounted_def weeklyActivity_fields start maxIterations_def)
qed

text \<open>The same with the weekday 7, which no date has: the scan runs through the 731 days
  of the window and the walk starts past its end.\<close>

lemma no_weekday_steps:
  "scanSteps (weeklyActivity [7]) 1706745600000 1769904000000 = 732"
proof -
  have "weeklyScanSteps 1705309200000 [7] 1706745600000 1769904000000 1706745600000
          = nat ((1769904000000 - 1706745600000) div msPerDay) + 1"
    by (rule weeklyScanSteps_no_weekday) simp_all
  then show ?thesis
    by (simp add: scanSteps_def weeklyActivity_fields isBefore_def dateFnsStartOfDay_def
        TimeWithinDay_def msPerDay_def)
qed

lemma no_weekday_walk:
  "generateCounted (weeklyActivity [7]) 1706745600000 1769904000000 = ([], 0)"
proof -
  let ?r = "\<lparr>rtype = Weekly, endDate = None, daysOfWeek = Defined [7], dayOfMonth = Undefined\<rparr>"
  have "weeklyScanSteps 1705309200000 [7] 1706745600000 1769904000000 1706745600000
          = nat ((1769904000000 - 1706745600000) div msPerDay) + 1"
    by (rule weeklyScanSteps_no_weekday) simp_all
  then have start: "startDate (weeklyActivity [7]) ?r 1706745600000 1769904000000
                 = addDays 1706745600000 732"
    by (simp add: startDate_def weeklyActivity_fields isBefore_def dateFnsStartOfDay_def
        TimeWithinDay_def msPerDay_def weeklyScan_steps)
  show ?thesis
    by (simp add: generateCounted_def weeklyActivity_fields start)
       (subst walk.simps, simp add: isAfter_def addDays_def msPerDay_def)
qed

lemma markedActivity_fields:
  "activityId markedActivity = ''a1''"
  "createdAt markedActivity = 1705309200000"
  "recurrence markedActivity =
     Some \<lparr>rtype = Weekly, endDate = None, daysOfWeek = Defined [1, 3], dayOfMonth = Undefined\<rparr>"
  "completedOccurrences markedActivity = [''2024-01-15'' \<mapsto> True]"
  by (simp_all add: markedActivity_def weeklyActivity_fields)

lemma exampleState_fields:
  "personalActivities (exampleState acts) = acts"
  "workActivities (exampleState acts) = []"
  "appModeState (exampleState acts) = Personal"
  "getRawActivities (exampleState acts) = acts"
  "lastNotificationCheckDay (exampleState acts) = None"
  "notifiedToday (exampleState acts) = {}"
  "categoryIdent ` set (allCategories (exampleState acts)) = {''cat_work''}"
  "assigneeIdent ` set (allAssignees (exampleState acts)) = {''asg_1''}"
  by (simp_all add: exampleState_def getRawActivities_def)

lemma assignedWorkState_fields:
  "workActivities assignedWorkState = [singleActivity\<lparr>activityId := ''w1''\<rparr>]"
  "assigneeIdent ` set (allAssignees assignedWorkState) = {''asg_1''}"
  "allAssignees assignedWorkState = [\<lparr>assigneeIdent = ''asg_1'', assigneeName = ''Ana''\<rparr>]"
  by (simp_all add: assignedWorkState_def exampleState_def)

section \<open>Facts about the store\<close>

lemma toggleLedger_twice:
  "toggleLedger k False (toggleLedger k True m) = m(k := None)"
  by (simp add: toggleLedger_def)

lemma toggle_twice_raw:
  "getRawActivities (toggleOccurrenceCompletion masterId ts False
       (toggleOccurrenceCompletion masterId ts True st))
     = map (\<lambda>act. if activityId act = masterId
                   then act\<lparr>completedOccurrences :=
                          (completedOccurrences act)(formatISODate ts := None)\<rparr>
                   else act) (getRawActivities st)"
  by (simp add: toggleOccurrenceCompletion_def currentActivitySetter_def getRawActivities_def
      Let_def toggleLedger_twice comp_def if_distrib cong: if_cong)

lemma currentActivitySetter_id:
  "f (getRawActivities st) = getRawActivities st \<Longrightarrow> currentActivitySetter f st = st"
  by (simp add: currentActivitySetter_def getRawActivities_def split: if_splits)

lemma getRaw_currentActivitySetter:
  "getRawActivities (currentActivitySetter f st) = f (getRawActivities st)"
  by (simp add: currentActivitySetter_def getRawActivities_def)

lemma toggle_absent_key_restores:
  assumes "\<forall>act\<in>set (getRawActivities st).
             activityId act = masterId \<longrightarrow> completedOccurrences act (formatISODate ts) = None"
  shows "toggleOccurrenceCompletion masterId ts False
           (toggleOccurrenceCompletion masterId ts True st) = st"
proof -
  let ?k = "formatISODate ts"
  let ?on = "\<lambda>act. if activityId act = masterId
                   then act\<lparr>completedOccurrences := toggleLedger ?k True (completedOccurrences act)\<rparr>
                   else act"
  let ?off = "\<lambda>act. if activityId act = masterId
                   then act\<lparr>completedOccurrences := toggleLedger ?k False (completedOccurrences act)\<rparr>
                   else act"
  have step: "?off (?on act) = act" if "act \<in> set (getRawActivities st)" for act
  proof (cases "activityId act = masterId")
    case True
    with assms that have "completedOccurrences act ?k = None" by blast
    then have "(completedOccurrences act)(?k := None) = completedOccurrences act"
      by (simp add: fun_upd_idem)
    with True show ?thesis by (simp add: toggleLedger_twice)
  next
    case False
    then show ?thesis by simp
  qed
  have "map (?off \<circ> ?on) (getRawActivities st) = getRawActivities st"
    by (rule map_idI) (simp add: step)
  then have "currentActivitySetter (map ?off \<circ> map ?on) st = st"
    by (intro currentActivitySetter_id) simp
  moreover have "toggleOccurrenceCompletion masterId ts False
           (toggleOccurrenceCompletion masterId ts True st)
        = currentActivitySetter (map ?off \<circ> map ?on) st"
    by (simp add: toggleOccurrenceCompletion_def currentActivitySetter_def Let_def)
  ultimately show ?thesis by simp
qed

lemma toggle_stores_no_false:
  assumes "\<forall>act\<in>set (getRawActivities st). False \<notin> ran (completedOccurrences act)"
  shows "\<forall>act\<in>set (getRawActivities (toggleOccurrenceCompletion masterId ts b st)).
           False \<notin> ran (completedOccurrences act)"
proof -
  have "False \<notin> ran (toggleLedger k b m)" if "False \<notin> ran m" for k m
    using that by (auto simp: toggleLedger_def ran_def split: if_splits)
  with assms show ?thesis
    by (auto simp: toggleOccurrenceCompletion_def getRaw_currentActivitySetter Let_def)
qed

lemma updateActivity_clears_ledger:
  assumes "updRecurrence updates = Some (Some r)"
    and "rtype r = RNone \<or> Some (rtype r) \<noteq> storedType act
         \<or> dayOfMonth r \<noteq> storedDayOfMonth act \<or> daysOfWeek r \<noteq> storedDaysOfWeek act
         \<or> (updCreatedAt updates = Some c \<and> c \<noteq> 0 \<and> c \<noteq> createdAt act)"
  shows "completedOccurrences (mergeActivity m act updates) = Map.empty"
  using assms
  by (auto simp: mergeActivity_def updatedCompletedOccurrences_def truthyNum_def)

text \<open>A stored rule without \<open>dayOfMonth\<close> and an incoming rule whose \<open>dayOfMonth\<close>
  is \<open>null\<close> differ under \<open>!==\<close>: the ledger is cleared.\<close>

lemma null_dayOfMonth_clears_ledger:
  "completedOccurrences
     (mergeActivity Personal markedActivity
        (noUpdates\<lparr>updRecurrence :=
           Some (Some \<lparr>rtype = Weekly, endDate = None, daysOfWeek = Defined [1, 3],
                        dayOfMonth = Null\<rparr>)\<rparr>))
     = Map.empty"
  by (simp add: mergeActivity_def updatedCompletedOccurrences_def noUpdates_def storedType_def
      storedDayOfMonth_def storedDaysOfWeek_def markedActivity_fields)

lemma one_element_list:
  "length xs = 1 \<Longrightarrow> xs ! 0 = a \<Longrightarrow> xs = [a]"
  by (cases xs) auto

section \<open>Facts about the scheduler\<close>

lemma notify_fresh:
  "e \<in> set (notify notified a instance tk) \<Longrightarrow> notificationKey e \<notin> notified"
  by (auto simp: notify_def Let_def split: if_splits)

lemma startingSoon_fresh:
  "e \<in> set (startingSoon hm notified now today a) \<Longrightarrow> notificationKey e \<notin> notified"
  by (auto simp: startingSoon_def Let_def split: option.splits if_splits prod.splits
      dest: notify_fresh)

lemma upcoming_fresh:
  "e \<in> set (upcoming notified today a) \<Longrightarrow> notificationKey e \<notin> notified"
  by (auto simp: upcoming_def Let_def split: option.splits if_splits dest: notify_fresh)

lemma tick_fresh:
  "e \<in> set (snd (schedulerTick hm now st)) \<Longrightarrow> notificationKey e \<notin> notifiedToday st"
  by (auto simp: schedulerTick_def Let_def dest: startingSoon_fresh upcoming_fresh)

lemma tick_records:
  "e \<in> set (snd (schedulerTick hm now st))
     \<Longrightarrow> notificationKey e \<in> notifiedToday (fst (schedulerTick hm now st))"
  by (simp add: schedulerTick_def Let_def)

lemma tick_resets:
  "lastNotificationCheckDay st = Some d \<Longrightarrow> d \<noteq> getDate now
     \<Longrightarrow> notifiedToday (fst (schedulerTick hm now st))
         = notificationKey ` set (snd (schedulerTick hm now st))"
  by (simp add: schedulerTick_def Let_def)

lemma today_instances:
  "generateFutureInstancesForNotifications singleActivity 1705276800000 1705363199999
     = [\<lparr>instanceDate = 1705309200000, masterActivityId = ''a1''\<rparr>]"
  by (simp add: generateFutureInstancesForNotifications_def generateCounted_def
      singleActivity_fields isWithinInterval_def)

lemma first_tick:
  "schedulerTick nineOClock 1705308960000 (exampleState [singleActivity])
     = ((exampleState [singleActivity])
          \<lparr>lastNotificationCheckDay := Some 15,
           notifiedToday := {''a1:2024-01-15:5min_soon''}\<rparr>,
        [\<lparr>typeKey = ''5min_soon'', emActivityId = ''a1'', emInstanceDate = 1705309200000\<rparr>])"
  by (simp add: schedulerTick_def startingSoon_def upcoming_def notify_def notificationKey_def
      nineOClock_def exampleState_fields singleActivity_fields isInstanceCompleted_def
      getStartOfDayUtil_def dateFnsEndOfDay_def dateFnsStartOfDay_def TimeWithinDay_def
      msPerDay_def today_instances scenario_keys getDate_def Day_def YearAndDay_def
      DayFromYear_def yearWalk.simps DaysInYear_def InLeapYear_def MonthFromDay_def
      monthStart_def Let_def cong: let_weak_cong)

lemma second_tick:
  "snd (schedulerTick nineOClock 1705309020000
         ((exampleState [singleActivity])
            \<lparr>lastNotificationCheckDay := Some 15,
             notifiedToday := {''a1:2024-01-15:5min_soon''}\<rparr>)) = []"
  by (simp add: schedulerTick_def startingSoon_def upcoming_def notify_def notificationKey_def
      nineOClock_def exampleState_fields singleActivity_fields isInstanceCompleted_def
      getStartOfDayUtil_def dateFnsEndOfDay_def dateFnsStartOfDay_def TimeWithinDay_def
      msPerDay_def today_instances scenario_keys getRawActivities_def Let_def
      cong: let_weak_cong)

lemma second_tick_on_fresh_state:
  "snd (schedulerTick nineOClock 1705309020000 (exampleState [singleActivity]))
     = [\<lparr>typeKey = ''5min_soon'', emActivityId = ''a1'', emInstanceDate = 1705309200000\<rparr>]"
  by (simp add: schedulerTick_def startingSoon_def upcoming_def notify_def notificationKey_def
      nineOClock_def exampleState_fields singleActivity_fields isInstanceCompleted_def
      getStartOfDayUtil_def dateFnsEndOfDay_def dateFnsStartOfDay_def TimeWithinDay_def
      msPerDay_def today_instances scenario_keys getRawActivities_def Let_def
      cong: let_weak_cong)

section \<open>The claims about the occurrence generator\<close>

text \<open>
  Claim C1, as amended. For every non-recurring activity (no recurrence rule, or a rule of
  type \<open>none\<close>) with \<open>createdAt = d\<close> and every window with
  \<open>rangeStart \<le> rangeEnd\<close>, the generator returns exactly the one instance at
  \<open>d\<close> when \<open>rangeStart \<le> d \<le> rangeEnd\<close> and the activity is not marked
  completed, and the empty sequence otherwise.
\<close>

theorem single_occurrence_in_window:
  assumes "recurrence a = None \<or> rtype (the (recurrence a)) = RNone"
    and "rangeStart \<le> rangeEnd"
  shows "generateFutureInstancesForNotifications a rangeStart rangeEnd =
           (if rangeStart \<le> createdAt a \<and> createdAt a \<le> rangeEnd \<and> \<not> completed a
            then [\<lparr>instanceDate = createdAt a, masterActivityId = activityId a\<rparr>] else [])"
  using assms
  by (auto simp: generateFutureInstancesForNotifications_def generateCounted_def
      isWithinInterval_def)

theorem single_occurrence_in_window_witness:
  "recurrence singleActivity = None
   \<and> localTime 2024 0 1 0 0 \<le> localTime 2024 11 31 0 0
   \<and> generateFutureInstancesForNotifications singleActivity
        (localTime 2024 0 1 0 0) (localTime 2024 11 31 0 0)
       = [\<lparr>instanceDate = localTime 2024 0 15 9 0, masterActivityId = ''a1''\<rparr>]"
  using single_occurrence_in_window [of singleActivity "localTime 2024 0 1 0 0"
      "localTime 2024 11 31 0 0"]
  by (simp add: singleActivity_fields localTime_values)

text \<open>
  Claim C1, as stated, leaves the \<open>completed\<close> flag out: a completed activity whose
  date lies inside the window yields no instance.
\<close>

theorem completed_single_occurrence_dropped:
  "recurrence (singleActivity\<lparr>completed := True\<rparr>) = None
   \<and> localTime 2024 0 1 0 0 \<le> createdAt (singleActivity\<lparr>completed := True\<rparr>)
   \<and> createdAt (singleActivity\<lparr>completed := True\<rparr>) \<le> localTime 2024 11 31 0 0
   \<and> generateFutureInstancesForNotifications (singleActivity\<lparr>completed := True\<rparr>)
        (localTime 2024 0 1 0 0) (localTime 2024 11 31 0 0) = []"
  by (simp add: singleActivity_fields localTime_values
      generateFutureInstancesForNotifications_def generateCounted_def)



text \<open>
  Claim C3 at the input where the source departs from it. The daily activity is anchored on
  1 January 1970 at 00:00 and its series ends on that same day: \<open>endDate\<close> is the
  timestamp 0. The test \<open>recurrence.endDate ? \<dots> : null\<close> of line 181 reads the end
  date \<open>0\<close> as absent, so over the window of the first four days of 1970 the generator
  returns all four days, three of them strictly after the end date.
\<close>

theorem epoch_endDate_is_ignored:
  "recurrence epochDailyActivity =
     Some \<lparr>rtype = Daily, endDate = Some 0, daysOfWeek = Undefined, dayOfMonth = Undefined\<rparr>
   \<and> localTime 1970 0 1 0 0 = 0
   \<and> map instanceDate
       (generateFutureInstancesForNotifications epochDailyActivity
          (localTime 1970 0 1 0 0) (localTime 1970 0 4 0 0))
     = [0, 86400000, 172800000, 259200000]"
  by (simp add: localTime_values epochDailyActivity_fields epoch_daily)

text \<open>
  Claim C4, as amended. The generator is a total function: the fast-forward scan and the
  walk are defined with their termination proofs. For every activity and every window the
  counter \<open>iterations\<close> of the main loop ends at 366 or less. The fast-forward scan of a
  weekly rule is a loop of its own, which the counter does not count: it takes at most one
  step for each day from the start of the first day of the window to its end, and one more;
  at most seven steps when the rule lists a weekday between 0 and 6. A weekly rule with no
  weekday (an empty or missing \<open>daysOfWeek\<close>) takes no scan step and yields the empty
  sequence.
\<close>

theorem generator_iterations_bounded:
  "snd (generateCounted a rangeStart rangeEnd) \<le> 366
   \<and> scanSteps a rangeStart rangeEnd
       \<le> nat ((rangeEnd - dateFnsStartOfDay rangeStart) div msPerDay) + 1
   \<and> (recurrence a = Some r \<and> rtype r = Weekly \<and> daysOfWeek r = Defined ds
        \<and> (\<exists>d\<in>set ds. 0 \<le> d \<and> d < 7)
      \<longrightarrow> scanSteps a rangeStart rangeEnd \<le> 7)
   \<and> (recurrence a = Some r \<and> rtype r = Weekly
        \<and> (present (daysOfWeek r) = None \<or> daysOfWeek r = Defined [])
      \<longrightarrow> scanSteps a rangeStart rangeEnd = 0
          \<and> generateFutureInstancesForNotifications a rangeStart rangeEnd = [])"
proof (intro conjI)
  have "snd (walk a r' rangeEnd 0 c []) \<le> maxIterations" for r' c
    by (rule walk_iterations) simp
  then show "snd (generateCounted a rangeStart rangeEnd) \<le> 366"
    by (simp add: generateCounted_def maxIterations_def Let_def)
next
  show "scanSteps a rangeStart rangeEnd
       \<le> nat ((rangeEnd - dateFnsStartOfDay rangeStart) div msPerDay) + 1"
    by (rule scanSteps_window)
next
  show "recurrence a = Some r \<and> rtype r = Weekly \<and> daysOfWeek r = Defined ds
        \<and> (\<exists>d\<in>set ds. 0 \<le> d \<and> d < 7)
      \<longrightarrow> scanSteps a rangeStart rangeEnd \<le> 7"
    using scanSteps_weekday by blast
next
  show "recurrence a = Some r \<and> rtype r = Weekly
        \<and> (present (daysOfWeek r) = None \<or> daysOfWeek r = Defined [])
      \<longrightarrow> scanSteps a rangeStart rangeEnd = 0
          \<and> generateFutureInstancesForNotifications a rangeStart rangeEnd = []"
    using weekly_without_weekday by blast
qed

theorem generator_iterations_bounded_witness:
  "recurrence (weeklyActivity []) =
     Some \<lparr>rtype = Weekly, endDate = None, daysOfWeek = Defined [], dayOfMonth = Undefined\<rparr>
   \<and> snd (generateCounted (weeklyActivity []) (localTime 2024 0 1 0 0)
            (localTime 2024 11 31 0 0)) \<le> 366
   \<and> scanSteps (weeklyActivity []) (localTime 2024 0 1 0 0) (localTime 2024 11 31 0 0) = 0
   \<and> generateFutureInstancesForNotifications (weeklyActivity []) (localTime 2024 0 1 0 0)
        (localTime 2024 11 31 0 0) = []
   \<and> recurrence (weeklyActivity [1]) =
     Some \<lparr>rtype = Weekly, endDate = None, daysOfWeek = Defined [1], dayOfMonth = Undefined\<rparr>
   \<and> (\<exists>d\<in>set [1::int]. 0 \<le> d \<and> d < 7)
   \<and> scanSteps (weeklyActivity [1]) (localTime 2024 1 1 0 0) (localTime 2026 1 1 0 0) \<le> 7
   \<and> snd (generateCounted (weeklyActivity [1]) (localTime 2024 1 1 0 0)
            (localTime 2026 1 1 0 0)) \<le> 366"
  using generator_iterations_bounded [of "weeklyActivity []" "localTime 2024 0 1 0 0"
      "localTime 2024 11 31 0 0"
      "\<lparr>rtype = Weekly, endDate = None, daysOfWeek = Defined [], dayOfMonth = Undefined\<rparr>" "[]"]
    generator_iterations_bounded [of "weeklyActivity [1]" "localTime 2024 1 1 0 0"
      "localTime 2026 1 1 0 0"
      "\<lparr>rtype = Weekly, endDate = None, daysOfWeek = Defined [1], dayOfMonth = Undefined\<rparr>" "[1]"]
  by (simp add: weeklyActivity_fields)

text \<open>
  Claim C4, as stated, bounds every loop of the generator by 366 iterations. A weekly
  activity on Mondays, over the window from 1 February 2024 to 1 February 2026, takes four
  steps of the fast-forward scan and then all 366 iterations of the main loop, 370 in all.
  With the weekday 7, which no date has, the scan takes 732 steps, one for each day of the
  window and one more, and the main loop none.
\<close>

theorem weekly_scan_is_outside_the_cap:
  "scanSteps (weeklyActivity [1]) (localTime 2024 1 1 0 0) (localTime 2026 1 1 0 0) = 4
   \<and> snd (generateCounted (weeklyActivity [1]) (localTime 2024 1 1 0 0)
            (localTime 2026 1 1 0 0)) = 366
   \<and> scanSteps (weeklyActivity [7]) (localTime 2024 1 1 0 0) (localTime 2026 1 1 0 0) = 732
   \<and> generateCounted (weeklyActivity [7]) (localTime 2024 1 1 0 0) (localTime 2026 1 1 0 0)
       = ([], 0)"
  by (simp add: localTime_values monday_steps monday_walk no_weekday_steps no_weekday_walk)

text \<open>
  Claim C10. For every monthly activity, every instance returned has a day of the month
  equal to \<open>dayOfMonth\<close>, and the month it lies in has that day: a month that is too
  short contributes nothing. The example, anchored on 31 January 2023 with
  \<open>dayOfMonth = 31\<close>, returns 31 January, 31 March and 31 May over the first half of
  the year: neither the last days of February and April nor the first days of March and May.
\<close>

theorem monthly_occurrence_day:
  assumes "recurrence a = Some r" "rtype r = Monthly" "dayOfMonth r = Defined n"
  shows "\<forall>x\<in>set (generateFutureInstancesForNotifications a rangeStart rangeEnd).
           getDate (instanceDate x) = n
           \<and> n \<le> DaysInMonth (getFullYear (instanceDate x)) (getMonth (instanceDate x))"
proof -
  have "\<forall>x\<in>set (fst (walk a r rangeEnd 0 (startDate a r rangeStart rangeEnd) [])).
           getDate (instanceDate x) = n
           \<and> n \<le> DaysInMonth (getFullYear (instanceDate x)) (getMonth (instanceDate x))"
  proof (rule walk_instances)
    show "\<forall>x\<in>set []. getDate (instanceDate x) = n
           \<and> n \<le> DaysInMonth (getFullYear (instanceDate x)) (getMonth (instanceDate x))"
      by simp
  next
    fix c
    assume "isValidOccurrence r c"
    then have "getDate c = n"
      using assms by (simp add: isValidOccurrence_def)
    then show "getDate (instanceDate \<lparr>instanceDate = c, masterActivityId = activityId a\<rparr>) = n
        \<and> n \<le> DaysInMonth
                 (getFullYear (instanceDate \<lparr>instanceDate = c, masterActivityId = activityId a\<rparr>))
                 (getMonth (instanceDate \<lparr>instanceDate = c, masterActivityId = activityId a\<rparr>))"
      using getDate_range [of c] by simp
  qed
  then show ?thesis
    using assms by (simp add: generate_recurring)
qed

theorem monthly_occurrence_day_witness:
  "recurrence lastDayActivity =
     Some \<lparr>rtype = Monthly, endDate = None, daysOfWeek = Undefined, dayOfMonth = Defined 31\<rparr>
   \<and> list_all (\<lambda>x. getDate (instanceDate x) = 31
                   \<and> 31 \<le> DaysInMonth (getFullYear (instanceDate x)) (getMonth (instanceDate x)))
       (generateFutureInstancesForNotifications lastDayActivity
          (localTime 2023 0 1 0 0) (localTime 2023 5 30 0 0))
   \<and> map (formatISODate \<circ> instanceDate)
       (generateFutureInstancesForNotifications lastDayActivity
          (localTime 2023 0 1 0 0) (localTime 2023 5 30 0 0))
     = [''2023-01-31'', ''2023-03-31'', ''2023-05-31'']"
proof -
  have "map (formatISODate \<circ> instanceDate)
       (generateFutureInstancesForNotifications lastDayActivity
          (localTime 2023 0 1 0 0) (localTime 2023 5 30 0 0))
      = map formatISODate (map instanceDate
       (generateFutureInstancesForNotifications lastDayActivity
          (localTime 2023 0 1 0 0) (localTime 2023 5 30 0 0)))"
    by simp
  also have "\<dots> = [''2023-01-31'', ''2023-03-31'', ''2023-05-31'']"
    by (simp only: localTime_values scenario_last_day list.map scenario_keys)
  finally show ?thesis
    using monthly_occurrence_day [of lastDayActivity
      "\<lparr>rtype = Monthly, endDate = None, daysOfWeek = Undefined, dayOfMonth = Defined 31\<rparr>" 31
      "localTime 2023 0 1 0 0" "localTime 2023 5 30 0 0"]
    by (simp add: lastDayActivity_fields list_all_iff)
qed

section \<open>The claims about the activity store\<close>

text \<open>
  Claim C5, as amended. For every state, every activity id and every occurrence timestamp,
  toggling the occurrence complete and then incomplete leaves every activity of the current
  collection as it was except that the key of that date is absent from the ledger of the
  activity toggled: all other keys and all other activities are unchanged. So the state is
  restored exactly whenever the date was not marked complete before. A toggle never stores
  \<open>false\<close>: a ledger without a false value has none after it.
\<close>

theorem toggle_complete_then_incomplete:
  "getRawActivities (toggleOccurrenceCompletion masterId ts False
       (toggleOccurrenceCompletion masterId ts True st))
     = map (\<lambda>act. if activityId act = masterId
                   then act\<lparr>completedOccurrences :=
                          (completedOccurrences act)(formatISODate ts := None)\<rparr>
                   else act) (getRawActivities st)
   \<and> ((\<forall>act\<in>set (getRawActivities st).
          activityId act = masterId \<longrightarrow> completedOccurrences act (formatISODate ts) = None)
       \<longrightarrow> toggleOccurrenceCompletion masterId ts False
             (toggleOccurrenceCompletion masterId ts True st) = st)
   \<and> ((\<forall>act\<in>set (getRawActivities st). False \<notin> ran (completedOccurrences act))
       \<longrightarrow> (\<forall>act\<in>set (getRawActivities (toggleOccurrenceCompletion masterId ts b st)).
              False \<notin> ran (completedOccurrences act)))"
  using toggle_twice_raw toggle_absent_key_restores toggle_stores_no_false
  by blast

theorem toggle_complete_then_incomplete_witness:
  "completedOccurrences (weeklyActivity [1, 3]) (formatISODate (localTime 2024 0 15 9 0)) = None
   \<and> toggleOccurrenceCompletion ''a1'' (localTime 2024 0 15 9 0) False
       (toggleOccurrenceCompletion ''a1'' (localTime 2024 0 15 9 0) True
          (exampleState [weeklyActivity [1, 3]]))
     = exampleState [weeklyActivity [1, 3]]"
  using toggle_complete_then_incomplete [of "''a1''" "localTime 2024 0 15 9 0"
      "exampleState [weeklyActivity [1, 3]]" True]
  by (simp add: exampleState_fields weeklyActivity_fields)

text \<open>
  Claim C5, as stated, promises the exact prior state for every prior ledger. When the date
  was already marked complete, the second toggle deletes the entry that was there before.
\<close>

theorem toggle_drops_earlier_completion:
  "formatISODate (localTime 2024 0 15 9 0) = ''2024-01-15''
   \<and> map (\<lambda>act. completedOccurrences act ''2024-01-15'')
       (getRawActivities (exampleState [markedActivity])) = [Some True]
   \<and> map (\<lambda>act. completedOccurrences act ''2024-01-15'')
       (getRawActivities
          (toggleOccurrenceCompletion ''a1'' (localTime 2024 0 15 9 0) False
             (toggleOccurrenceCompletion ''a1'' (localTime 2024 0 15 9 0) True
                (exampleState [markedActivity])))) = [None]"
  by (simp add: exampleState_fields markedActivity_fields localTime_values scenario_keys
      toggleOccurrenceCompletion_def getRaw_currentActivitySetter toggleLedger_def)

text \<open>
  Claim C6 at the input where the source departs from it. The stored weekly activity is
  anchored on 15 January 2024 and has that occurrence marked complete. The update carries
  the same rule and moves the anchor to the epoch (\<open>createdAt = 0\<close>). The test
  \<open>updates.createdAt && \<dots>\<close> reads the new anchor \<open>0\<close> as absent, so the anchor
  changes and the ledger is kept.
\<close>

theorem anchor_moved_to_epoch_keeps_ledger:
  "createdAt markedActivity = localTime 2024 0 15 9 0
   \<and> map createdAt
       (getRawActivities (updateActivity ''a1'' anchorToEpoch (exampleState [markedActivity])))
     = [0]
   \<and> map (\<lambda>act. completedOccurrences act ''2024-01-15'')
       (getRawActivities (updateActivity ''a1'' anchorToEpoch (exampleState [markedActivity])))
     = [Some True]"
  by (simp add: exampleState_fields markedActivity_fields localTime_values anchorToEpoch_def
      noUpdates_def updateActivity_def getRaw_currentActivitySetter mergeActivity_def
      updatedCompletedOccurrences_def storedType_def storedDayOfMonth_def storedDaysOfWeek_def
      truthyNum_def orElse_def)

text \<open>
  Claim C8. For an activity id that no activity of the current collection has, the toggle,
  the update and the deletion each return the state they were given.
\<close>

theorem unknown_activity_is_noop:
  assumes "masterId \<notin> activityId ` set (getRawActivities st)"
  shows "toggleOccurrenceCompletion masterId ts b st = st
       \<and> updateActivity masterId updates st = st
       \<and> deleteActivity masterId st = st"
proof -
  have ne: "activityId act \<noteq> masterId" if "act \<in> set (getRawActivities st)" for act
    using assms that by auto
  have "toggleOccurrenceCompletion masterId ts b st = st"
    unfolding toggleOccurrenceCompletion_def Let_def
    by (rule currentActivitySetter_id, rule map_idI) (simp add: ne)
  moreover have "updateActivity masterId updates st = st"
    unfolding updateActivity_def
    by (rule currentActivitySetter_id, rule map_idI) (simp add: ne)
  moreover have "deleteActivity masterId st = st"
    unfolding deleteActivity_def
    by (rule currentActivitySetter_id) (simp add: ne filter_id_conv)
  ultimately show ?thesis by simp
qed

theorem unknown_activity_is_noop_witness:
  "''zz'' \<notin> activityId ` set (getRawActivities (exampleState [markedActivity]))
   \<and> toggleOccurrenceCompletion ''zz'' (localTime 2024 0 15 9 0) True
       (exampleState [markedActivity]) = exampleState [markedActivity]
   \<and> updateActivity ''zz'' anchorToEpoch (exampleState [markedActivity])
       = exampleState [markedActivity]
   \<and> deleteActivity ''zz'' (exampleState [markedActivity]) = exampleState [markedActivity]"
  using unknown_activity_is_noop [of "''zz''" "exampleState [markedActivity]"
      "localTime 2024 0 15 9 0" True anchorToEpoch]
  by (simp add: exampleState_fields markedActivity_fields)

text \<open>
  Claim C9, as amended. Deleting a category that exists keeps both collections at their
  length and leaves each activity, position by position, as it was, except that an activity
  referencing the category has \<open>categoryId\<close> empty. Deleting an assignee that exists
  does the same with \<open>responsiblePersonId\<close> on the personal collection only: the work
  collection is left as it was, references to the assignee included.
\<close>

theorem deleting_category_or_assignee_clears_references:
  "(cid \<in> categoryIdent ` set (allCategories st) \<longrightarrow>
      length (personalActivities (deleteCategory cid st)) = length (personalActivities st)
    \<and> length (workActivities (deleteCategory cid st)) = length (workActivities st)
    \<and> (\<forall>i<length (personalActivities st).
          personalActivities (deleteCategory cid st) ! i =
            (if categoryId (personalActivities st ! i) = cid
             then (personalActivities st ! i)\<lparr>categoryId := []\<rparr>
             else personalActivities st ! i))
    \<and> (\<forall>i<length (workActivities st).
          workActivities (deleteCategory cid st) ! i =
            (if categoryId (workActivities st ! i) = cid
             then (workActivities st ! i)\<lparr>categoryId := []\<rparr>
             else workActivities st ! i)))
   \<and> (aid \<in> assigneeIdent ` set (allAssignees st) \<longrightarrow>
      length (personalActivities (deleteAssignee aid st)) = length (personalActivities st)
    \<and> (\<forall>i<length (personalActivities st).
          personalActivities (deleteAssignee aid st) ! i =
            (if responsiblePersonId (personalActivities st ! i) = Some aid
             then (personalActivities st ! i)\<lparr>responsiblePersonId := None\<rparr>
             else personalActivities st ! i))
    \<and> workActivities (deleteAssignee aid st) = workActivities st)"
proof (intro conjI impI)
  assume "cid \<in> categoryIdent ` set (allCategories st)"
  then obtain c where c: "find (\<lambda>cat. categoryIdent cat = cid) (allCategories st) = Some c"
    by (cases "find (\<lambda>cat. categoryIdent cat = cid) (allCategories st)")
       (auto simp: find_None_iff)
  show "length (personalActivities (deleteCategory cid st)) = length (personalActivities st)"
    by (simp add: deleteCategory_def c)
  show "length (workActivities (deleteCategory cid st)) = length (workActivities st)"
    by (simp add: deleteCategory_def c)
  show "\<forall>i<length (personalActivities st).
          personalActivities (deleteCategory cid st) ! i =
            (if categoryId (personalActivities st ! i) = cid
             then (personalActivities st ! i)\<lparr>categoryId := []\<rparr>
             else personalActivities st ! i)"
    by (simp add: deleteCategory_def c clearCategory_def)
  show "\<forall>i<length (workActivities st).
          workActivities (deleteCategory cid st) ! i =
            (if categoryId (workActivities st ! i) = cid
             then (workActivities st ! i)\<lparr>categoryId := []\<rparr>
             else workActivities st ! i)"
    by (simp add: deleteCategory_def c clearCategory_def)
next
  assume "aid \<in> assigneeIdent ` set (allAssignees st)"
  then obtain a where a: "find (\<lambda>asg. assigneeIdent asg = aid) (allAssignees st) = Some a"
    by (cases "find (\<lambda>asg. assigneeIdent asg = aid) (allAssignees st)")
       (auto simp: find_None_iff)
  show "length (personalActivities (deleteAssignee aid st)) = length (personalActivities st)"
    by (simp add: deleteAssignee_def a)
  show "\<forall>i<length (personalActivities st).
          personalActivities (deleteAssignee aid st) ! i =
            (if responsiblePersonId (personalActivities st ! i) = Some aid
             then (personalActivities st ! i)\<lparr>responsiblePersonId := None\<rparr>
             else personalActivities st ! i)"
    by (simp add: deleteAssignee_def a clearAssignee_def)
  show "workActivities (deleteAssignee aid st) = workActivities st"
    by (simp add: deleteAssignee_def a)
qed

theorem deleting_category_or_assignee_clears_references_witness:
  "personalActivities (deleteCategory ''cat_work'' (exampleState [singleActivity]))
     = [singleActivity\<lparr>categoryId := []\<rparr>]
   \<and> personalActivities (deleteAssignee ''asg_1'' (exampleState [singleActivity]))
     = [singleActivity\<lparr>responsiblePersonId := None\<rparr>]"
proof -
  have "personalActivities (deleteCategory ''cat_work'' (exampleState [singleActivity])) ! 0
          = singleActivity\<lparr>categoryId := []\<rparr>
      \<and> length (personalActivities (deleteCategory ''cat_work'' (exampleState [singleActivity]))) = 1
      \<and> personalActivities (deleteAssignee ''asg_1'' (exampleState [singleActivity])) ! 0
          = singleActivity\<lparr>responsiblePersonId := None\<rparr>
      \<and> length (personalActivities (deleteAssignee ''asg_1'' (exampleState [singleActivity]))) = 1"
    using deleting_category_or_assignee_clears_references [of "''cat_work''"
        "exampleState [singleActivity]" "''asg_1''"]
    by (simp add: exampleState_fields singleActivity_fields)
  then show ?thesis
    by (simp add: one_element_list)
qed

text \<open>
  Claim C9, as stated, has the reference cleared on every referencing activity. An activity
  of the work collection that references the assignee still does after the assignee is
  deleted.
\<close>

theorem work_activity_keeps_deleted_assignee:
  "''asg_1'' \<in> assigneeIdent ` set (allAssignees assignedWorkState)
   \<and> map responsiblePersonId (workActivities assignedWorkState) = [Some ''asg_1'']
   \<and> allAssignees (deleteAssignee ''asg_1'' assignedWorkState) = []
   \<and> map responsiblePersonId (workActivities (deleteAssignee ''asg_1'' assignedWorkState))
       = [Some ''asg_1'']"
  by (simp add: assignedWorkState_fields deleteAssignee_def singleActivity_fields)

section \<open>The claim about the notification scheduler\<close>

text \<open>
  Claim C7. Take a tick and the tick that follows it on the state the first one left
  (whatever happened to the activities in between), on the same day of the month: no
  \<open>5min_soon\<close> notification of the second tick has the activity and the date key of a
  \<open>5min_soon\<close> notification of the first. And when a tick finds a day of the month
  different from the one recorded by the tick before, the set it leaves holds the keys of
  the notifications it showed itself and nothing else, so that a key shown earlier can be
  shown again by a later tick. In the example the activity starts at 09:00: the tick of
  08:56 shows the notification, the tick of 08:57 shows nothing, although on a state without
  the record of the first tick it would show it, and a tick on the next day leaves a set
  without the key of the day before.
\<close>

theorem scheduler_shows_each_key_once:
  "(notifiedToday st2 = notifiedToday (fst (schedulerTick hm now1 st))
      \<and> lastNotificationCheckDay st2 = lastNotificationCheckDay (fst (schedulerTick hm now1 st))
      \<and> getDate now2 = getDate now1
    \<longrightarrow> (\<forall>e1\<in>set (snd (schedulerTick hm now1 st)).
         \<forall>e2\<in>set (snd (schedulerTick hm now2 st2)).
           \<not> (typeKey e1 = ''5min_soon'' \<and> typeKey e2 = ''5min_soon''
              \<and> emActivityId e1 = emActivityId e2
              \<and> formatISODate (emInstanceDate e1) = formatISODate (emInstanceDate e2))))
   \<and> (lastNotificationCheckDay st = Some d \<and> d \<noteq> getDate now1
    \<longrightarrow> notifiedToday (fst (schedulerTick hm now1 st))
          = notificationKey ` set (snd (schedulerTick hm now1 st)))"
proof (intro conjI impI ballI)
  fix e1 e2
  assume same: "notifiedToday st2 = notifiedToday (fst (schedulerTick hm now1 st))
      \<and> lastNotificationCheckDay st2 = lastNotificationCheckDay (fst (schedulerTick hm now1 st))
      \<and> getDate now2 = getDate now1"
    and e1: "e1 \<in> set (snd (schedulerTick hm now1 st))"
    and e2: "e2 \<in> set (snd (schedulerTick hm now2 st2))"
  from e1 have "notificationKey e1 \<in> notifiedToday st2"
    using same by (simp add: tick_records)
  moreover from e2 have "notificationKey e2 \<notin> notifiedToday st2"
    by (rule tick_fresh)
  ultimately have "notificationKey e1 \<noteq> notificationKey e2"
    by auto
  then show "\<not> (typeKey e1 = ''5min_soon'' \<and> typeKey e2 = ''5min_soon''
              \<and> emActivityId e1 = emActivityId e2
              \<and> formatISODate (emInstanceDate e1) = formatISODate (emInstanceDate e2))"
    by (auto simp: notificationKey_def)
next
  assume "lastNotificationCheckDay st = Some d \<and> d \<noteq> getDate now1"
  then show "notifiedToday (fst (schedulerTick hm now1 st))
          = notificationKey ` set (snd (schedulerTick hm now1 st))"
    by (simp add: tick_resets)
qed

theorem scheduler_shows_each_key_once_witness:
  "snd (schedulerTick nineOClock (localTime 2024 0 15 8 56) (exampleState [singleActivity]))
     = [\<lparr>typeKey = ''5min_soon'', emActivityId = ''a1'',
         emInstanceDate = localTime 2024 0 15 9 0\<rparr>]
   \<and> getDate (localTime 2024 0 15 8 57) = getDate (localTime 2024 0 15 8 56)
   \<and> list_all (\<lambda>e2. \<not> (typeKey e2 = ''5min_soon'' \<and> emActivityId e2 = ''a1''
                        \<and> formatISODate (emInstanceDate e2) = ''2024-01-15''))
       (snd (schedulerTick nineOClock (localTime 2024 0 15 8 57)
              (fst (schedulerTick nineOClock (localTime 2024 0 15 8 56)
                     (exampleState [singleActivity])))))
   \<and> snd (schedulerTick nineOClock (localTime 2024 0 15 8 57)
              (fst (schedulerTick nineOClock (localTime 2024 0 15 8 56)
                     (exampleState [singleActivity])))) = []
   \<and> snd (schedulerTick nineOClock (localTime 2024 0 15 8 57) (exampleState [singleActivity]))
     = [\<lparr>typeKey = ''5min_soon'', emActivityId = ''a1'',
         emInstanceDate = localTime 2024 0 15 9 0\<rparr>]
   \<and> notifiedToday
       (fst (schedulerTick nineOClock (localTime 2024 0 16 8 56)
              (fst (schedulerTick nineOClock (localTime 2024 0 15 8 56)
                     (exampleState [singleActivity])))))
     = notificationKey `
         set (snd (schedulerTick nineOClock (localTime 2024 0 16 8 56)
                (fst (schedulerTick nineOClock (localTime 2024 0 15 8 56)
                       (exampleState [singleActivity])))))"
proof -
  let ?s1 = "fst (schedulerTick nineOClock (localTime 2024 0 15 8 56)
                     (exampleState [singleActivity]))"
  have days: "getDate 1705309020000 = 15" "getDate 1705308960000 = 15"
    "getDate 1705395360000 = 16"
    by (simp_all add: getDate_def Day_def YearAndDay_def
      DayFromYear_def yearWalk.simps DaysInYear_def InLeapYear_def MonthFromDay_def
      monthStart_def msPerDay_def Let_def cong: let_weak_cong)
  have last: "lastNotificationCheckDay ?s1 = Some 15"
    by (simp add: localTime_values first_tick)
  have a: "\<forall>e2\<in>set (snd (schedulerTick nineOClock (localTime 2024 0 15 8 57) ?s1)).
           \<not> (typeKey e2 = ''5min_soon'' \<and> emActivityId e2 = ''a1''
               \<and> formatISODate (emInstanceDate e2) = ''2024-01-15'')"
    using scheduler_shows_each_key_once [of ?s1 nineOClock "localTime 2024 0 15 8 56"
        "exampleState [singleActivity]" "localTime 2024 0 15 8 57" 15]
    by (auto simp: days localTime_values first_tick scenario_keys)
  have b: "notifiedToday (fst (schedulerTick nineOClock (localTime 2024 0 16 8 56) ?s1))
     = notificationKey ` set (snd (schedulerTick nineOClock (localTime 2024 0 16 8 56) ?s1))"
    using scheduler_shows_each_key_once [of ?s1 nineOClock "localTime 2024 0 16 8 56"
        ?s1 "localTime 2024 0 16 8 56" 15] last
    by (simp add: days localTime_values)
  show ?thesis
    using a b
    by (simp add: days localTime_values first_tick second_tick second_tick_on_fresh_state
        list_all_iff)
qed

end
